theory Spec2Isabelle
  imports Complex_Main
begin

section \<open>Frequency response data (frdata.py)\<close>

text \<open>
  A shallow embedding of the class \<open>FRD\<close> and of \<open>_convertToFRD\<close>. Floating-point
  numbers are idealised: a frequency is a \<open>real\<close>, a response value a \<open>complex\<close>.
  Exceptions are values: every operation returns \<open>error + result\<close> together with the
  heap it leaves behind, since an exception does not undo an in-place sort.
\<close>

subsection \<open>Exceptions\<close>

text \<open>
  One constructor per Python exception class that the module raises or runs into. The
  string is the message of the raise statement (without the formatted numbers), so that
  two \<open>ValueError\<close>s of different raise statements differ.
\<close>

datatype error =
    TypeError string
  | ValueError string
  | NotImplementedError string
  | AttributeError string
  | IndexError
  | LinAlgError

definition msg_shape :: string where
  "msg_shape = ''The frequency data constructor needs a 1-d or 3-d response data array and a matching frequency vector size''"

definition msg_inputs :: string where
  "msg_inputs = ''The first summand has %i input(s), but the second has %i.''"

definition msg_outputs :: string where
  "msg_outputs = ''The first summand has %i output(s), but the second has %i.''"

definition msg_mul :: string where
  "msg_mul = ''C = A * B: A has %i column(s) (input(s)), but B has %i row(s) (output(s)).''"

definition msg_div :: string where
  "msg_div = ''FRD.__div__ is currently implemented only for SISO systems.''"

definition msg_rdiv :: string where
  "msg_rdiv = ''FRD.__rdiv__ is currently implemented only for SISO systems.''"

definition msg_exponent :: string where
  "msg_exponent = ''Exponent must be an integer''"

definition msg_feedback :: string where
  "msg_feedback = ''FRD.feedback, inputs/outputs mismatch''"

definition msg_overlap :: string where
  "msg_overlap = ''Frequency ranges of FRD do not overlap''"

definition msg_convert :: string where
  "msg_convert = ''Can't convert given type to FRD system.''"

definition msg_broadcast :: string where
  "msg_broadcast = ''operands could not be broadcast together''"

definition msg_aligned :: string where
  "msg_aligned = ''matrices are not aligned''"

definition msg_truth :: string where
  "msg_truth = ''The truth value of an array with more than one element is ambiguous''"

definition msg_min :: string where
  "msg_min = ''min() arg is an empty sequence''"

subsection \<open>numpy arrays\<close>

text \<open>
  An \<open>ndarray\<close> is its shape and its elements in row-major order. The response tensor
  \<open>fresp\<close> is such an array of shape \<open>[outputs, inputs, N]\<close>; \<open>get3 A i j k\<close> is
  \<open>A[i, j, k]\<close>.
\<close>

record 'a ndarray =
  shape :: "nat list"
  data :: "'a list"

definition wf_array :: "'a ndarray \<Rightarrow> bool" where
  "wf_array A = (length (data A) = prod_list (shape A))"

definition array1 :: "'a list \<Rightarrow> 'a ndarray" where
  "array1 xs = \<lparr>shape = [length xs], data = xs\<rparr>"

definition get3 :: "'a ndarray \<Rightarrow> nat \<Rightarrow> nat \<Rightarrow> nat \<Rightarrow> 'a" where
  "get3 A i j k = data A ! ((i * (shape A ! 1) + j) * (shape A ! 2) + k)"

definition tabulate3 :: "nat \<Rightarrow> nat \<Rightarrow> nat \<Rightarrow> (nat \<Rightarrow> nat \<Rightarrow> nat \<Rightarrow> 'a) \<Rightarrow> 'a ndarray" where
  "tabulate3 n0 n1 n2 f =
     \<lparr>shape = [n0, n1, n2],
      data = concat (map (\<lambda>i. concat (map (\<lambda>j. map (f i j) [0..<n2]) [0..<n1])) [0..<n0])\<rparr>"

text \<open>
  A two-dimensional array (numpy's \<open>matrix\<close> view of a slice \<open>A[:, :, k]\<close>, the result
  of \<open>evalfr\<close>, the table \<open>ifunc\<close> of splines).
\<close>

record 'a matrix =
  nrows :: nat
  ncols :: nat
  entries :: "'a list"

definition mget :: "'a matrix \<Rightarrow> nat \<Rightarrow> nat \<Rightarrow> 'a" where
  "mget M r c = entries M ! (r * ncols M + c)"

definition mtab :: "nat \<Rightarrow> nat \<Rightarrow> (nat \<Rightarrow> nat \<Rightarrow> 'a) \<Rightarrow> 'a matrix" where
  "mtab nr nc f =
     \<lparr>nrows = nr, ncols = nc, entries = concat (map (\<lambda>r. map (f r) [0..<nc]) [0..<nr])\<rparr>"

text \<open>A loop whose body may raise: the first exception ends it.\<close>

fun mapE :: "('a \<Rightarrow> error + 'b) \<Rightarrow> 'a list \<Rightarrow> error + 'b list" where
  "mapE f [] = Inr []"
| "mapE f (x # xs) =
     (case f x of
        Inl e \<Rightarrow> Inl e
      | Inr y \<Rightarrow> (case mapE f xs of Inl e \<Rightarrow> Inl e | Inr ys \<Rightarrow> Inr (y # ys)))"

subsection \<open>External libraries\<close>

text \<open>
  \<open>scipy.interpolate.splprep\<close> and \<open>splev\<close> and \<open>numpy.linalg.solve\<close> are not code of
  this module; the model takes them as parameters. \<open>splprep E u xre xim w s\<close> is
  \<open>splprep(u=u, x=[xre, xim], w=w, s=s)\<close> and may raise; \<open>splev E x tck\<close> is the pair
  \<open>splev(x, tck, der=0)\<close>; \<open>solve E A B\<close> is \<open>linalg.solve(A, B)\<close> and may raise.
\<close>

record 'spl ext =
  splprep :: "real list \<Rightarrow> real list \<Rightarrow> real list \<Rightarrow> real list \<Rightarrow> real \<Rightarrow> error + 'spl"
  splev :: "real \<Rightarrow> 'spl \<Rightarrow> real \<times> real"
  solve :: "complex matrix \<Rightarrow> complex matrix \<Rightarrow> error + complex matrix"

subsection \<open>Objects and the heap\<close>

text \<open>
  The frequency array of a model is a numpy array that \<open>_convertToFRD\<close> and \<open>freqresp\<close>
  sort in place and that the copy constructor shares, so \<open>omega\<close> is an address into
  \<open>arrays\<close>. A model is an address into \<open>frds\<close>: its fields are assigned once, by the
  constructor. The response tensor is never written after construction and is held by
  value.

  Modelled from the spec: the base class \<open>Lti\<close> (lti.py) is not part of the sources;
  \<open>Lti.__init__(self, inputs, outputs)\<close> stores the two counts, which are the second and
  the first dimension of the tensor.
\<close>

record 'spl frd =
  omega :: nat
  fresp :: "complex ndarray"
  ifunc :: "'spl matrix"
  inputs :: nat
  outputs :: nat

record 'spl heap =
  arrays :: "real list list"
  frds :: "'spl frd list"

subsection \<open>FRD.__init__, called with a response and a frequency vector\<close>

text \<open>
  \<open>self.fresp[i, j, :]\<close>, and the spline through its real and imaginary parts with the
  weights \<open>1.0/(absolute(...)+0.001)\<close> and \<open>s=0.0\<close>.
\<close>

definition row3 :: "'a ndarray \<Rightarrow> nat \<Rightarrow> nat \<Rightarrow> 'a list" where
  "row3 A i j = map (get3 A i j) [0..<shape A ! 2]"

definition spline_of :: "'spl ext \<Rightarrow> real list \<Rightarrow> complex ndarray \<Rightarrow> nat \<Rightarrow> nat \<Rightarrow> error + 'spl" where
  "spline_of E u F i j =
     splprep E u (map Re (row3 F i j)) (map Im (row3 F i j))
       (map (\<lambda>z. 1 / (cmod z + 1 / 1000)) (row3 F i j)) 0"

text \<open>
  The loop \<open>for i in range(shape[1]): for j in range(shape[0])\<close> reads
  \<open>self.fresp[i, j, :]\<close>: \<open>i\<close> runs over the inputs and indexes the outputs, and numpy
  raises IndexError for an index out of range.
\<close>

definition spline_loop :: "'spl ext \<Rightarrow> real list \<Rightarrow> complex ndarray \<Rightarrow> error + 'spl list" where
  "spline_loop E u F =
     mapE (\<lambda>(i, j). if i < shape F ! 0 \<and> j < shape F ! 1 then spline_of E u F i j
                     else Inl IndexError)
       (List.product [0..<shape F ! 1] [0..<shape F ! 0])"

text \<open>
  \<open>FRD(d, w)\<close> for a response \<open>d\<close> that is not a system. \<open>array(args[0], dtype=complex)\<close>
  and \<open>array(args[1])\<close> copy their arguments, so the arguments are values and the new
  frequency array is a new address. For a 1-d response the source evaluates
  \<open>self.fresp.reshape(1, 1, len(args[0]))\<close> and drops the result: \<open>self.fresp\<close> is
  unchanged. The test of the source,
  \<open>len(fresp.shape) != 3 or fresp.shape[-1] != omega.shape[-1] or len(omega.shape) != 1\<close>,
  is evaluated left to right; \<open>omega.shape[-1]\<close> raises IndexError for a 0-d array.
\<close>

definition FRD_data ::
  "'spl ext \<Rightarrow> complex ndarray \<Rightarrow> real ndarray \<Rightarrow> 'spl heap \<Rightarrow> (error + nat) \<times> 'spl heap" where
  "FRD_data E d w s =
     (if length (shape d) = 3 then
        (if shape w = [] then (Inl IndexError, s)
         else if last (shape d) = last (shape w) \<and> length (shape w) = 1 then
           (case spline_loop E (data w) d of
              Inl e \<Rightarrow> (Inl e, s)
            | Inr ts \<Rightarrow>
                (Inr (length (frds s)),
                 s\<lparr>arrays := arrays s @ [data w],
                   frds := frds s @
                     [\<lparr>omega = length (arrays s), fresp = d,
                       ifunc = \<lparr>nrows = shape d ! 1, ncols = shape d ! 0, entries = ts\<rparr>,
                       inputs = shape d ! 1, outputs = shape d ! 0\<rparr>]\<rparr>))
         else (Inl (TypeError msg_shape), s))
      else (Inl (TypeError msg_shape), s))"

text \<open>The copy constructor \<open>FRD(sys)\<close> shares the frequency array and the tensor.\<close>

definition FRD_copy :: "'spl ext \<Rightarrow> nat \<Rightarrow> 'spl heap \<Rightarrow> (error + nat) \<times> 'spl heap" where
  "FRD_copy E r s =
     (let src = frds s ! r in
      case spline_loop E (arrays s ! omega src) (fresp src) of
        Inl e \<Rightarrow> (Inl e, s)
      | Inr ts \<Rightarrow>
          (Inr (length (frds s)),
           s\<lparr>frds := frds s @
               [\<lparr>omega = omega src, fresp = fresp src,
                 ifunc = \<lparr>nrows = shape (fresp src) ! 1, ncols = shape (fresp src) ! 0,
                          entries = ts\<rparr>,
                 inputs = shape (fresp src) ! 1, outputs = shape (fresp src) ! 0\<rparr>]\<rparr>))"

subsection \<open>FRD.evalfr\<close>

text \<open>
  \<open>out[i, j] = frraw[0] + 1.0j*frraw[1]\<close> with \<open>frraw = splev(omega, self.ifunc[i,j])\<close>,
  for \<open>i\<close> over the outputs and \<open>j\<close> over the inputs. The table \<open>ifunc\<close> has one row per
  input, so reading it can raise IndexError.
\<close>

definition evalfr :: "'spl ext \<Rightarrow> 'spl frd \<Rightarrow> real \<Rightarrow> error + complex matrix" where
  "evalfr E me x =
     (case mapE (\<lambda>(i, j). if i < nrows (ifunc me) \<and> j < ncols (ifunc me)
                            then Inr (Complex (fst (splev E x (mget (ifunc me) i j)))
                                              (snd (splev E x (mget (ifunc me) i j))))
                            else Inl IndexError)
             (List.product [0..<outputs me] [0..<inputs me]) of
        Inl e \<Rightarrow> Inl e
      | Inr zs \<Rightarrow> Inr \<lparr>nrows = outputs me, ncols = inputs me, entries = zs\<rparr>)"

subsection \<open>numpy arithmetic\<close>

text \<open>
  Broadcasting of one dimension: equal sizes, or one of them is 1. \<open>bcast1\<close> pairs the
  elements of two 1-d arrays as \<open>omega - sys.omega\<close> does.
\<close>

definition bdim :: "nat \<Rightarrow> nat \<Rightarrow> nat option" where
  "bdim a b = (if a = b then Some a else if a = 1 then Some b else if b = 1 then Some a else None)"

definition bcast1 :: "'a list \<Rightarrow> 'a list \<Rightarrow> error + ('a \<times> 'a) list" where
  "bcast1 xs ys =
     (if length xs = length ys then Inr (zip xs ys)
      else if length xs = 1 then Inr (map (\<lambda>y. (hd xs, y)) ys)
      else if length ys = 1 then Inr (map (\<lambda>x. (x, hd ys)) xs)
      else Inl (ValueError msg_broadcast))"

text \<open>Matrices: \<open>A[i, j]\<close> of a broadcast operand, \<open>eye(n)\<close>, \<open>A + B\<close> and the product \<open>A * B\<close>.\<close>

definition bget :: "'a matrix \<Rightarrow> nat \<Rightarrow> nat \<Rightarrow> 'a" where
  "bget M i j = mget M (if nrows M = 1 then 0 else i) (if ncols M = 1 then 0 else j)"

definition eye :: "nat \<Rightarrow> complex matrix" where
  "eye n = mtab n n (\<lambda>i j. if i = j then 1 else 0)"

definition mat_add :: "complex matrix \<Rightarrow> complex matrix \<Rightarrow> error + complex matrix" where
  "mat_add A B =
     (case bdim (nrows A) (nrows B) of
        None \<Rightarrow> Inl (ValueError msg_broadcast)
      | Some r \<Rightarrow>
          (case bdim (ncols A) (ncols B) of
             None \<Rightarrow> Inl (ValueError msg_broadcast)
           | Some c \<Rightarrow> Inr (mtab r c (\<lambda>i j. bget A i j + bget B i j))))"

definition matmul :: "complex matrix \<Rightarrow> complex matrix \<Rightarrow> error + complex matrix" where
  "matmul A B =
     (if ncols A = nrows B
      then Inr (mtab (nrows A) (ncols B) (\<lambda>i j. \<Sum>k\<leftarrow>[0..<ncols A]. mget A i k * mget B k j))
      else Inl (ValueError msg_aligned))"

text \<open>\<open>A[:, :, k]\<close> of a 3-d array; IndexError when \<open>k\<close> is out of range.\<close>

definition slice3 :: "'a ndarray \<Rightarrow> nat \<Rightarrow> error + 'a matrix" where
  "slice3 A k =
     (if k < shape A ! 2 then Inr (mtab (shape A ! 0) (shape A ! 1) (\<lambda>i j. get3 A i j k))
      else Inl IndexError)"

text \<open>
  \<open>A + B\<close> for arrays of any shape. The shapes are aligned at their last dimension;
  \<open>nd_get A idx\<close> reads \<open>A\<close> at an index of the result. For equal shapes the sum is
  element by element.
\<close>

fun bshape :: "nat list \<Rightarrow> nat list \<Rightarrow> nat list option" where
  "bshape [] ys = Some ys"
| "bshape (x # xs) [] = Some (x # xs)"
| "bshape (x # xs) (y # ys) =
     (case bdim x y of None \<Rightarrow> None | Some d \<Rightarrow> map_option ((#) d) (bshape xs ys))"

fun indices :: "nat list \<Rightarrow> nat list list" where
  "indices [] = [[]]"
| "indices (d # ds) = concat (map (\<lambda>i. map ((#) i) (indices ds)) [0..<d])"

definition nd_get :: "'a ndarray \<Rightarrow> nat list \<Rightarrow> 'a" where
  "nd_get A idx =
     data A ! foldl (\<lambda>acc (d, i). acc * d + (if d = 1 then 0 else i)) 0
                (zip (shape A) (drop (length idx - length (shape A)) idx))"

definition np_add :: "complex ndarray \<Rightarrow> complex ndarray \<Rightarrow> error + complex ndarray" where
  "np_add A B =
     (if shape A = shape B
      then Inr \<lparr>shape = shape A, data = map (\<lambda>(x, y). x + y) (zip (data A) (data B))\<rparr>
      else (case bshape (rev (shape A)) (rev (shape B)) of
              None \<Rightarrow> Inl (ValueError msg_broadcast)
            | Some rs \<Rightarrow>
                Inr \<lparr>shape = rev rs,
                     data = map (\<lambda>idx. nd_get A idx + nd_get B idx) (indices (rev rs))\<rparr>))"

text \<open>
  \<open>fresp = empty((no, ni, n))\<close> followed by \<open>fresp[:, :, k] = f k\<close> for every \<open>k\<close>: the
  assignment broadcasts a value whose dimensions are those of the slice or 1, and raises
  ValueError otherwise.
\<close>

definition fill_slices ::
  "nat \<Rightarrow> nat \<Rightarrow> nat \<Rightarrow> (nat \<Rightarrow> error + 'a matrix) \<Rightarrow> error + 'a ndarray" where
  "fill_slices no ni n f =
     (case mapE (\<lambda>k. case f k of
                       Inl e \<Rightarrow> Inl e
                     | Inr M \<Rightarrow>
                         if (nrows M = no \<or> nrows M = 1) \<and> (ncols M = ni \<or> ncols M = 1)
                         then Inr M else Inl (ValueError msg_broadcast))
             [0..<n] of
        Inl e \<Rightarrow> Inl e
      | Inr Ms \<Rightarrow> Inr (tabulate3 no ni n (\<lambda>i j k. bget (Ms ! k) i j)))"

text \<open>\<open>numpy.angle\<close> is \<open>arctan2(imag, real)\<close>.\<close>

definition arctan2 :: "real \<Rightarrow> real \<Rightarrow> real" where
  "arctan2 y x =
     (if 0 < x then arctan (y / x)
      else if x < 0 then (if 0 \<le> y then arctan (y / x) + pi else arctan (y / x) - pi)
      else if 0 < y then pi / 2
      else if y < 0 then - (pi / 2)
      else 0)"

definition angle :: "complex \<Rightarrow> real" where
  "angle z = arctan2 (Im z) (Re z)"

subsection \<open>Operands\<close>

text \<open>
  The numbers of Python 2 that \<open>isinstance(other, (int, float, long, complex))\<close>
  accepts (\<open>bool\<close> is a subclass of \<open>int\<close>), with the complex value \<open>ones(...)*sys\<close> uses.

  Modelled from the spec: a system that is an \<open>Lti\<close> but not an \<open>FRD\<close> (its classes are
  not part of the sources) gives its counts \<open>inputs\<close> and \<open>outputs\<close> and its
  \<open>evalfr(omega)\<close>, a complex matrix, which may raise.
\<close>

datatype pynum = PyInt int | PyLong int | PyFloat real | PyComplex complex | PyBool bool

fun num_val :: "pynum \<Rightarrow> complex" where
  "num_val (PyInt n) = of_int n"
| "num_val (PyLong n) = of_int n"
| "num_val (PyFloat x) = of_real x"
| "num_val (PyComplex z) = z"
| "num_val (PyBool b) = (if b then 1 else 0)"

record lti =
  lti_inputs :: nat
  lti_outputs :: nat
  lti_evalfr :: "real \<Rightarrow> error + complex matrix"

datatype operand =
    FRDRef nat
  | LtiObj lti
  | Num pynum
  | ArrayLike "real ndarray"
  | Other

subsection \<open>_convertToFRD\<close>

definition epsw :: real where
  "epsw = 1 / 10 ^ 8"

definition sort_inplace :: "nat \<Rightarrow> 'spl heap \<Rightarrow> 'spl heap" where
  "sort_inplace a s = s\<lparr>arrays := (arrays s)[a := sort (arrays s ! a)]\<rparr>"

text \<open>
  The path of \<open>_convertToFRD\<close> for a model whose frequencies do not match. \<open>w\<close> is the
  sorted \<open>omega\<close>, \<open>sw\<close> is \<open>sys.omega\<close>. \<open>min\<close> and \<open>max\<close> are Python's and raise on an
  empty sequence; \<open>omega[omega >= ...]\<close> is a new array; \<open>not omega\<close> is True for an
  empty array, is \<open>omega[0] == 0\<close> for one element and raises ValueError for more; a numpy
  array has neither \<open>insert\<close> nor \<open>append\<close>. The print statement is not modelled.
\<close>

definition rebase ::
  "'spl ext \<Rightarrow> 'spl frd \<Rightarrow> real list \<Rightarrow> real list \<Rightarrow> 'spl heap \<Rightarrow> (error + nat) \<times> 'spl heap" where
  "rebase E sysm w sw s =
     (if sw = [] then (Inl (ValueError msg_min), s)
      else
        (let w1 = filter (\<lambda>x. fold min (tl sw) (hd sw) \<le> x) w;
             w2 = filter (\<lambda>x. x \<le> fold max (tl sw) (hd sw)) w1
         in if w2 = [] then (Inl (ValueError msg_overlap), s)
            else if 1 < length w2 then (Inl (ValueError msg_truth), s)
            else if hd w2 = 0 then (Inl (ValueError msg_overlap), s)
            else if epsw < hd w2 - hd sw then (Inl (AttributeError ''insert''), s)
            else if epsw < last sw - last w2 then (Inl (AttributeError ''append''), s)
            else
              (case fill_slices (outputs sysm) (inputs sysm) (length w2)
                      (\<lambda>k. evalfr E sysm (w2 ! k)) of
                 Inl e \<Rightarrow> (Inl e, s)
               | Inr F \<Rightarrow> FRD_data E F (array1 w2) s)))"

text \<open>
  \<open>_convertToFRD(sys, omega, inputs, outputs)\<close>; \<open>om\<close> is the address of the array
  \<open>omega\<close>, which \<open>omega.sort()\<close> sorts in place. In the last branch every exception
  raised inside \<open>try\<close> is swallowed by the bare \<open>except\<close> and replaced by the TypeError.
\<close>

definition convertToFRD ::
  "'spl ext \<Rightarrow> operand \<Rightarrow> nat \<Rightarrow> nat \<Rightarrow> nat \<Rightarrow> 'spl heap \<Rightarrow> (error + nat) \<times> 'spl heap" where
  "convertToFRD E sys om inputs' outputs' s =
     (case sys of
        FRDRef r \<Rightarrow>
          (let s1 = sort_inplace om s;
               w = arrays s1 ! om;
               sw = arrays s1 ! omega (frds s1 ! r)
           in case bcast1 w sw of
                Inl e \<Rightarrow> (Inl e, s1)
              | Inr ps \<Rightarrow>
                  if list_all (\<lambda>(x, y). \<bar>x - y\<bar> < epsw) ps then (Inr r, s1)
                  else rebase E (frds s1 ! r) w sw s1)
      | LtiObj l \<Rightarrow>
          (let s1 = sort_inplace om s;
               w = arrays s1 ! om
           in case fill_slices (lti_outputs l) (lti_inputs l) (length w)
                     (\<lambda>k. lti_evalfr l (w ! k)) of
                Inl e \<Rightarrow> (Inl e, s1)
              | Inr F \<Rightarrow> FRD_data E F (array1 w) s1)
      | Num x \<Rightarrow>
          FRD_data E
            (tabulate3 outputs' inputs' (length (arrays s ! om)) (\<lambda>i j k. num_val x))
            (array1 (arrays s ! om)) s
      | ArrayLike A \<Rightarrow>
          (if length (shape A) = 2 then
             (case FRD_data E
                     (tabulate3 (shape A ! 0) (shape A ! 1) (length (arrays s ! om))
                        (\<lambda>i j k. complex_of_real (data A ! (i * (shape A ! 1) + j))))
                     (array1 (arrays s ! om)) s of
                (Inl e, s') \<Rightarrow> (Inl (TypeError msg_convert), s')
              | (Inr r, s') \<Rightarrow> (Inr r, s'))
           else (Inl (TypeError msg_convert), s))
      | Other \<Rightarrow> (Inl (TypeError msg_convert), s))"

subsection \<open>The operators\<close>

text \<open>\<open>FRD.__neg__\<close>.\<close>

definition neg :: "'spl ext \<Rightarrow> nat \<Rightarrow> 'spl heap \<Rightarrow> (error + nat) \<times> 'spl heap" where
  "neg E self s =
     (let me = frds s ! self
      in FRD_data E \<lparr>shape = shape (fresp me), data = map uminus (data (fresp me))\<rparr>
           (array1 (arrays s ! omega me)) s)"

text \<open>
  \<open>FRD.__add__\<close>. The test \<open>(other.omega != self.omega).any()\<close> only prints a warning;
  for two arrays that do not broadcast, the comparison of the numpy the module was
  written for gives the bool \<open>True\<close>, which has no method \<open>any\<close>.
\<close>

definition add :: "'spl ext \<Rightarrow> nat \<Rightarrow> operand \<Rightarrow> 'spl heap \<Rightarrow> (error + nat) \<times> 'spl heap" where
  "add E self other s =
     (case (case other of
              FRDRef r \<Rightarrow>
                (case bcast1 (arrays s ! omega (frds s ! r)) (arrays s ! omega (frds s ! self)) of
                   Inl e \<Rightarrow> Inl (AttributeError ''any'')
                 | Inr ps \<Rightarrow> Inr ())
            | _ \<Rightarrow> Inr ()) of
        Inl e \<Rightarrow> (Inl e, s)
      | Inr u \<Rightarrow>
          (case convertToFRD E other (omega (frds s ! self)) 1 1 s of
             (Inl e, s1) \<Rightarrow> (Inl e, s1)
           | (Inr r, s1) \<Rightarrow>
               (let me = frds s1 ! self; ot = frds s1 ! r
                in if inputs me = inputs ot then
                     (if outputs me = outputs ot then
                        (case np_add (fresp me) (fresp ot) of
                           Inl e \<Rightarrow> (Inl e, s1)
                         | Inr F \<Rightarrow> FRD_data E F (array1 (arrays s1 ! omega ot)) s1)
                      else (Inl (ValueError msg_outputs), s1))
                   else (Inl (ValueError msg_inputs), s1))))"

text \<open>
  The nested lists \<open>[[[v] for j in range(ni)] for i in range(no)]\<close> as \<open>array(...)\<close>
  reads them.
\<close>

definition nested3 :: "nat \<Rightarrow> nat \<Rightarrow> 'a \<Rightarrow> 'a ndarray" where
  "nested3 no ni v =
     (if no = 0 then \<lparr>shape = [0], data = []\<rparr>
      else if ni = 0 then \<lparr>shape = [no, 0], data = []\<rparr>
      else \<lparr>shape = [no, ni, 1], data = replicate (no * ni) v\<rparr>)"

text \<open>
  \<open>FRD.__mul__\<close>. The body of the triple loop starts with \<open>self.num[i][k]\<close>; an FRD has
  no attribute \<open>num\<close> (nor \<open>den\<close>), so the first iteration raises AttributeError. When
  one of the three ranges is empty the loop body never runs and the source reaches
  \<open>FRD(num, den)\<close> with the preallocated lists.
\<close>

definition mul :: "'spl ext \<Rightarrow> nat \<Rightarrow> operand \<Rightarrow> 'spl heap \<Rightarrow> (error + nat) \<times> 'spl heap" where
  "mul E self other s =
     (case (case other of
              Num x \<Rightarrow> convertToFRD E other (omega (frds s ! self))
                         (inputs (frds s ! self)) (inputs (frds s ! self)) s
            | _ \<Rightarrow> convertToFRD E other (omega (frds s ! self)) 1 1 s) of
        (Inl e, s1) \<Rightarrow> (Inl e, s1)
      | (Inr r, s1) \<Rightarrow>
          (let me = frds s1 ! self; ot = frds s1 ! r
           in if inputs me = outputs ot then
                (if 0 < outputs me \<and> 0 < inputs ot \<and> 0 < inputs me
                 then (Inl (AttributeError ''num''), s1)
                 else FRD_data E (nested3 (outputs me) (inputs ot) 0)
                        (nested3 (outputs me) (inputs ot) 1) s1)
              else (Inl (ValueError msg_mul), s1)))"

text \<open>
  \<open>FRD.__div__\<close> (the operator \<open>/\<close> of Python 2). After the SISO test the source
  evaluates \<open>self.num[0][0]\<close>.
\<close>

definition div' :: "'spl ext \<Rightarrow> nat \<Rightarrow> operand \<Rightarrow> 'spl heap \<Rightarrow> (error + nat) \<times> 'spl heap" where
  "div' E self other s =
     (case (case other of
              Num x \<Rightarrow> convertToFRD E other (omega (frds s ! self))
                         (inputs (frds s ! self)) (inputs (frds s ! self)) s
            | _ \<Rightarrow> convertToFRD E other (omega (frds s ! self)) 1 1 s) of
        (Inl e, s1) \<Rightarrow> (Inl e, s1)
      | (Inr r, s1) \<Rightarrow>
          (let me = frds s1 ! self; ot = frds s1 ! r
           in if 1 < inputs me \<or> 1 < outputs me \<or> 1 < inputs ot \<or> 1 < outputs ot
              then (Inl (NotImplementedError msg_div), s1)
              else (Inl (AttributeError ''num''), s1)))"

text \<open>\<open>FRD.__rdiv__\<close>: \<open>other / self\<close> after the conversion of \<open>other\<close>.\<close>

definition rdiv :: "'spl ext \<Rightarrow> nat \<Rightarrow> operand \<Rightarrow> 'spl heap \<Rightarrow> (error + nat) \<times> 'spl heap" where
  "rdiv E self other s =
     (case (case other of
              Num x \<Rightarrow> convertToFRD E other (omega (frds s ! self))
                         (inputs (frds s ! self)) (inputs (frds s ! self)) s
            | _ \<Rightarrow> convertToFRD E other (omega (frds s ! self)) 1 1 s) of
        (Inl e, s1) \<Rightarrow> (Inl e, s1)
      | (Inr r, s1) \<Rightarrow>
          (let me = frds s1 ! self; ot = frds s1 ! r
           in if 1 < inputs me \<or> 1 < outputs me \<or> 1 < inputs ot \<or> 1 < outputs ot
              then (Inl (NotImplementedError msg_rdiv), s1)
              else div' E r (FRDRef self) s1))"

text \<open>
  \<open>FRD.__pow__\<close>. \<open>type(other) == int\<close> holds for an \<open>int\<close> only (not for \<open>long\<close>, \<open>bool\<close>
  or \<open>float\<close>). \<open>FRD([1],[1])\<close> is the constructor on two lists of one element. In
  \<open>self * (self**(other-1))\<close> the power is evaluated before the product; in
  \<open>(FRD([1],[1]) / self) * (self**(other+1))\<close> the quotient comes first.
\<close>

definition unity :: "'spl ext \<Rightarrow> 'spl heap \<Rightarrow> (error + nat) \<times> 'spl heap" where
  "unity E s = FRD_data E \<lparr>shape = [1], data = [1]\<rparr> \<lparr>shape = [1], data = [1]\<rparr> s"

function pow_int :: "'spl ext \<Rightarrow> nat \<Rightarrow> int \<Rightarrow> 'spl heap \<Rightarrow> (error + nat) \<times> 'spl heap" where
  "pow_int E self n s =
     (if n = 0 then unity E s
      else if 0 < n then
        (case pow_int E self (n - 1) s of
           (Inl e, s1) \<Rightarrow> (Inl e, s1)
         | (Inr p, s1) \<Rightarrow> mul E self (FRDRef p) s1)
      else
        (case unity E s of
           (Inl e, s1) \<Rightarrow> (Inl e, s1)
         | (Inr u, s1) \<Rightarrow>
             (case div' E u (FRDRef self) s1 of
                (Inl e, s2) \<Rightarrow> (Inl e, s2)
              | (Inr q, s2) \<Rightarrow>
                  (case pow_int E self (n + 1) s2 of
                     (Inl e, s3) \<Rightarrow> (Inl e, s3)
                   | (Inr p, s3) \<Rightarrow> mul E q (FRDRef p) s3))))"
  by pat_completeness auto
termination
  by (relation "measure (\<lambda>(E, self, n, s). nat \<bar>n\<bar>)") auto

declare pow_int.simps [simp del]

definition pow :: "'spl ext \<Rightarrow> nat \<Rightarrow> pynum \<Rightarrow> 'spl heap \<Rightarrow> (error + nat) \<times> 'spl heap" where
  "pow E self e s =
     (case e of
        PyInt n \<Rightarrow> pow_int E self n s
      | _ \<Rightarrow> (Inl (ValueError msg_exponent), s))"

subsection \<open>FRD.freqresp\<close>

text \<open>
  \<open>om\<close> is the address of the caller's sequence, which \<open>omega.sort()\<close> sorts in place;
  the third result is that same sequence. \<open>mag[:, :, k] = abs(fresp)\<close> and
  \<open>phase[:, :, k] = angle(fresp)\<close> for \<open>fresp = self.evalfr(w)\<close>.
\<close>

definition freqresp ::
  "'spl ext \<Rightarrow> nat \<Rightarrow> nat \<Rightarrow> 'spl heap \<Rightarrow> (error + real ndarray \<times> real ndarray \<times> nat) \<times> 'spl heap" where
  "freqresp E self om s =
     (let me = frds s ! self;
          numfreq = length (arrays s ! om);
          s1 = sort_inplace om s;
          w = arrays s1 ! om
      in case mapE (\<lambda>x. evalfr E me x) w of
           Inl e \<Rightarrow> (Inl e, s1)
         | Inr Ms \<Rightarrow>
             (Inr (tabulate3 (outputs me) (inputs me) numfreq (\<lambda>i j k. cmod (mget (Ms ! k) i j)),
                   tabulate3 (outputs me) (inputs me) numfreq (\<lambda>i j k. angle (mget (Ms ! k) i j)),
                   om),
              s1))"

subsection \<open>FRD.feedback\<close>

text \<open>
  One sample of the loop:
  \<open>linalg.solve(eye(self.inputs) + self.fresp[:, :, k] * other.fresp[:, :, k],
  eye(self.inputs)) * self.fresp[:, :, k]\<close>, the products being matrix products.
\<close>

definition feedback_sample :: "'spl ext \<Rightarrow> 'spl frd \<Rightarrow> 'spl frd \<Rightarrow> nat \<Rightarrow> error + complex matrix" where
  "feedback_sample E me ot k =
     (case slice3 (fresp me) k of
        Inl e \<Rightarrow> Inl e
      | Inr P \<Rightarrow>
          (case slice3 (fresp ot) k of
             Inl e \<Rightarrow> Inl e
           | Inr C \<Rightarrow>
               (case matmul P C of
                  Inl e \<Rightarrow> Inl e
                | Inr PC \<Rightarrow>
                    (case mat_add (eye (inputs me)) PC of
                       Inl e \<Rightarrow> Inl e
                     | Inr A \<Rightarrow>
                         (case solve E A (eye (inputs me)) of
                            Inl e \<Rightarrow> Inl e
                          | Inr X \<Rightarrow> matmul X P)))))"

text \<open>\<open>FRD.feedback(other, sign)\<close>. The body never reads \<open>sign\<close>.\<close>

definition feedback ::
  "'spl ext \<Rightarrow> nat \<Rightarrow> operand \<Rightarrow> pynum \<Rightarrow> 'spl heap \<Rightarrow> (error + nat) \<times> 'spl heap" where
  "feedback E self other sign s =
     (case convertToFRD E other (omega (frds s ! self)) 1 1 s of
        (Inl e, s1) \<Rightarrow> (Inl e, s1)
      | (Inr r, s1) \<Rightarrow>
          (let me = frds s1 ! self; ot = frds s1 ! r
           in if outputs me = inputs ot \<and> inputs me = outputs ot then
                (case fill_slices (outputs me) (inputs me) (length (arrays s1 ! omega ot))
                        (\<lambda>k. feedback_sample E me ot k) of
                   Inl e \<Rightarrow> (Inl e, s1)
                 | Inr F \<Rightarrow> FRD_data E F (array1 (arrays s1 ! omega ot)) s1)
              else (Inl (ValueError msg_feedback), s1)))"

subsection \<open>Well-formed models\<close>

text \<open>
  What the constructor establishes for a model in a heap: the frequency array exists,
  the tensor has the shape \<open>[outputs, inputs, N]\<close> for the \<open>N\<close> frequencies, the table of
  splines has one row per input, and the model is square unless it has no output or no
  input (the spline loop raises IndexError otherwise).
\<close>

definition wf_frd :: "'spl heap \<Rightarrow> 'spl frd \<Rightarrow> bool" where
  "wf_frd s m =
     (omega m < length (arrays s) \<and>
      shape (fresp m) = [outputs m, inputs m, length (arrays s ! omega m)] \<and>
      wf_array (fresp m) \<and>
      nrows (ifunc m) = inputs m \<and> ncols (ifunc m) = outputs m \<and>
      length (entries (ifunc m)) = inputs m * outputs m \<and>
      (outputs m = inputs m \<or> outputs m = 0 \<or> inputs m = 0))"

definition is_frd :: "'spl heap \<Rightarrow> nat \<Rightarrow> bool" where
  "is_frd s r = (r < length (frds s) \<and> wf_frd s (frds s ! r))"

subsection \<open>The contract of the linear solver\<close>

text \<open>
  What \<open>linalg.solve(A, eye(n))\<close> promises in exact arithmetic when it returns: an
  \<open>n\<close> by \<open>n\<close> matrix \<open>X\<close> with \<open>A X = I\<close>.
\<close>

definition solve_inverts :: "'spl ext \<Rightarrow> bool" where
  "solve_inverts E =
     (\<forall>A n X. solve E A (eye n) = Inr X \<longrightarrow>
        nrows X = n \<and> ncols X = n \<and> matmul A X = Inr (eye n))"

subsection \<open>The contract of the spline fit\<close>


subsection \<open>Heaps that grow\<close>

text \<open>
  \<open>extends s s'\<close>: the heap \<open>s'\<close> holds the arrays and the models of \<open>s\<close>, unchanged and
  at their addresses, and possibly new ones after them. \<open>sorts_target om s s'\<close>: from
  \<open>s\<close> to \<open>s'\<close> the array at \<open>om\<close> has been sorted in place, and nothing else that was
  in \<open>s\<close> has changed.
\<close>

definition extends :: "'spl heap \<Rightarrow> 'spl heap \<Rightarrow> bool" where
  "extends s s' =
     (take (length (arrays s)) (arrays s') = arrays s \<and>
      take (length (frds s)) (frds s') = frds s)"

definition sorts_target :: "nat \<Rightarrow> 'spl heap \<Rightarrow> 'spl heap \<Rightarrow> bool" where
  "sorts_target om s s' =
     (arrays s' ! om = sort (arrays s ! om) \<and>
      take (length (arrays s)) (arrays s') = (arrays s)[om := sort (arrays s ! om)] \<and>
      take (length (frds s)) (frds s') = frds s)"

subsection \<open>A concrete instance\<close>

text \<open>
  A stand-in for the libraries, used to run the model on concrete inputs: the spline of a
  row is the table of its samples, evaluated by lookup (it passes through every sample),
  and \<open>solve\<close> solves a system of one equation, raising LinAlgError when the
  coefficient is zero.
\<close>

definition solve1 :: "complex matrix \<Rightarrow> complex matrix \<Rightarrow> error + complex matrix" where
  "solve1 A B =
     (case (entries A, entries B) of
        ([a], [b]) \<Rightarrow>
          if nrows A = 1 \<and> ncols A = 1 \<and> nrows B = 1 \<and> ncols B = 1 \<and> a \<noteq> 0
          then Inr \<lparr>nrows = 1, ncols = 1, entries = [b / a]\<rparr>
          else Inl LinAlgError
      | _ \<Rightarrow> Inl LinAlgError)"

definition table_ext :: "(real \<times> real \<times> real) list ext" where
  "table_ext =
     \<lparr>splprep = (\<lambda>u xre xim w s. Inr (zip u (zip xre xim))),
      splev = (\<lambda>x t. case map_of t x of Some v \<Rightarrow> v | None \<Rightarrow> (0, 0)),
      solve = solve1\<rparr>"

definition empty_heap :: "(real \<times> real \<times> real) list heap" where
  "empty_heap = \<lparr>arrays = [], frds = []\<rparr>"

text \<open>A SISO response of constant value \<open>c\<close> at three frequencies, as a 3-d array.\<close>

definition const3 :: "complex \<Rightarrow> complex ndarray" where
  "const3 c = \<lparr>shape = [1, 1, 3], data = [c, c, c]\<rparr>"

text \<open>The table of splines of such a response on the frequencies 1, 2, 3.\<close>

definition siso_tab :: "real \<Rightarrow> (real \<times> real \<times> real) list matrix" where
  "siso_tab c = \<lparr>nrows = 1, ncols = 1, entries = [[(1, c, 0), (2, c, 0), (3, c, 0)]]\<rparr>"

text \<open>
  The heap after \<open>a = FRD(const3 2, [1, 2, 3])\<close> and \<open>b = FRD(const3 4, [1, 2, 3])\<close>:
  \<open>a\<close> is model 0, \<open>b\<close> is model 1.
\<close>

definition heap_ab :: "(real \<times> real \<times> real) list heap" where
  "heap_ab =
     snd (FRD_data table_ext (const3 4) (array1 [1, 2, 3])
       (snd (FRD_data table_ext (const3 2) (array1 [1, 2, 3]) empty_heap)))"


text \<open>
  The heap of \<open>a\<close> and \<open>b\<close> with one more array, the caller's sequence \<open>[3, 1, 2]\<close>, at
  address 2.
\<close>

definition heap_q :: "(real \<times> real \<times> real) list heap" where
  "heap_q = heap_ab\<lparr>arrays := arrays heap_ab @ [[3, 1, 2]]\<rparr>"

section \<open>Properties\<close>

subsection \<open>Loops\<close>

lemma mapE_Inr_length: "mapE f xs = Inr ys \<Longrightarrow> length ys = length xs"
  by (induction xs arbitrary: ys) (auto split: sum.splits)

lemma mapE_Inr_nth: "mapE f xs = Inr ys \<Longrightarrow> i < length xs \<Longrightarrow> f (xs ! i) = Inr (ys ! i)"
proof (induction xs arbitrary: ys i)
  case Nil
  then show ?case by simp
next
  case (Cons x xs)
  then show ?case by (cases i) (auto split: sum.splits)
qed

lemma mapE_all_Inr: "(\<And>x. x \<in> set xs \<Longrightarrow> f x = Inr (g x)) \<Longrightarrow> mapE f xs = Inr (map g xs)"
  by (induction xs) auto

lemma mapE_Inl_mem: "x \<in> set xs \<Longrightarrow> f x = Inl e \<Longrightarrow> \<exists>e'. mapE f xs = Inl e'"
  by (induction xs) (auto split: sum.splits)

subsection \<open>Indexing\<close>

lemma idx2_less: "i < (n::nat) \<Longrightarrow> j < m \<Longrightarrow> i * m + j < n * m"
proof -
  assume a: "i < n" "j < m"
  then have "i * m + j < i * m + m" by simp
  also have "\<dots> = Suc i * m" by simp
  also from a have "\<dots> \<le> n * m" by (intro mult_le_mono1) simp
  finally show ?thesis .
qed

lemma length_concat_map:
  "\<forall>x\<in>set xs. length (g x) = m \<Longrightarrow> length (concat (map g xs)) = length xs * m"
  by (induction xs) auto

lemma nth_concat_map:
  "\<forall>x\<in>set xs. length (g x) = m \<Longrightarrow> i < length xs \<Longrightarrow> j < m \<Longrightarrow>
     concat (map g xs) ! (i * m + j) = g (xs ! i) ! j"
proof (induction xs arbitrary: i)
  case Nil
  then show ?case by simp
next
  case (Cons x xs)
  show ?case
  proof (cases i)
    case 0
    with Cons.prems show ?thesis by (simp add: nth_append)
  next
    case (Suc i')
    with Cons.prems have "concat (map g xs) ! (i' * m + j) = g (xs ! i') ! j"
      by (intro Cons.IH) auto
    with Suc Cons.prems show ?thesis by (simp add: nth_append add.assoc)
  qed
qed

lemma length_mtab: "length (entries (mtab nr nc f)) = nr * nc"
  by (simp add: mtab_def length_concat_map[where m = nc])

lemma mget_mtab: "i < nr \<Longrightarrow> j < nc \<Longrightarrow> mget (mtab nr nc f) i j = f i j"
  by (simp add: mget_def mtab_def nth_concat_map[where m = nc])

lemma mtab_cong:
  "(\<And>i j. i < nr \<Longrightarrow> j < nc \<Longrightarrow> f i j = g i j) \<Longrightarrow> mtab nr nc f = mtab nr nc g"
proof -
  assume h: "\<And>i j. i < nr \<Longrightarrow> j < nc \<Longrightarrow> f i j = g i j"
  have eq: "map (\<lambda>r. map (f r) [0..<nc]) [0..<nr] = map (\<lambda>r. map (g r) [0..<nc]) [0..<nr]"
    by (rule map_cong) (auto simp: h)
  show ?thesis unfolding mtab_def eq by (rule refl)
qed

lemma length_row: "length (concat (map (\<lambda>j. map (f j) [0..<n2]) [0..<n1])) = n1 * n2"
  by (simp add: length_concat_map[where m = n2])

lemma length_tabulate3: "length (data (tabulate3 n0 n1 n2 f)) = n0 * n1 * n2"
  by (simp add: tabulate3_def length_concat_map[where m = "n1 * n2"] length_row)

lemma get3_tabulate3:
  assumes "i < n0" "j < n1" "k < n2"
  shows "get3 (tabulate3 n0 n1 n2 f) i j k = f i j k"
proof -
  let ?row = "\<lambda>i. concat (map (\<lambda>j. map (f i j) [0..<n2]) [0..<n1])"
  have jk: "j * n2 + k < n1 * n2"
    using assms by (simp add: idx2_less)
  have ix: "(i * n1 + j) * n2 + k = i * (n1 * n2) + (j * n2 + k)"
    by (simp add: algebra_simps)
  have "get3 (tabulate3 n0 n1 n2 f) i j k = concat (map ?row [0..<n0]) ! ((i * n1 + j) * n2 + k)"
    by (simp add: get3_def tabulate3_def)
  also have "\<dots> = concat (map ?row [0..<n0]) ! (i * (n1 * n2) + (j * n2 + k))"
    by (simp only: ix)
  also have "\<dots> = ?row ([0..<n0] ! i) ! (j * n2 + k)"
    using assms jk by (intro nth_concat_map) (auto simp: length_row)
  also have "\<dots> = ?row i ! (j * n2 + k)"
    using assms by simp
  also have "\<dots> = map (f i ([0..<n1] ! j)) [0..<n2] ! k"
    using assms by (intro nth_concat_map) auto
  also have "\<dots> = f i j k"
    using assms by simp
  finally show ?thesis .
qed

lemma wf_tabulate3: "wf_array (tabulate3 n0 n1 n2 f)"
  by (simp add: wf_array_def length_tabulate3) (simp add: tabulate3_def)

lemma map_product:
  "map (\<lambda>(i, j). f i j) (List.product xs ys) = concat (map (\<lambda>i. map (f i) ys) xs)"
  by (induction xs) auto


subsection \<open>The constructor\<close>

lemma FRD_data_Inr:
  assumes "FRD_data E d w s = (Inr r, s')"
  shows "r = length (frds s) \<and> arrays s' = arrays s @ [data w] \<and>
         (\<exists>ts. frds s' = frds s @
            [\<lparr>omega = length (arrays s), fresp = d,
              ifunc = \<lparr>nrows = shape d ! 1, ncols = shape d ! 0, entries = ts\<rparr>,
              inputs = shape d ! 1, outputs = shape d ! 0\<rparr>] \<and>
            spline_loop E (data w) d = Inr ts) \<and>
         length (shape d) = 3 \<and> shape w = [shape d ! 2]"
proof -
  from assms have l3: "length (shape d) = 3" and l1: "length (shape w) = 1"
    and eq: "last (shape d) = last (shape w)"
    by (auto simp: FRD_data_def split: if_splits)
  from l1 obtain a where w: "shape w = [a]"
    by (cases "shape w") auto
  from l3 have "shape d \<noteq> []"
    by auto
  then have "last (shape d) = shape d ! (length (shape d) - 1)"
    by (rule last_conv_nth)
  with l3 eq w have "shape d ! 2 = a"
    by simp
  with assms l3 w show ?thesis
    by (auto simp: FRD_data_def split: sum.splits if_splits)
qed



lemma length_spline_loop:
  "spline_loop E u F = Inr ts \<Longrightarrow> length ts = shape F ! 1 * shape F ! 0"
  by (auto simp: spline_loop_def dest: mapE_Inr_length)

lemma spline_loop_nonsquare:
  assumes "shape F ! 0 \<noteq> shape F ! 1" "0 < shape F ! 0" "0 < shape F ! 1"
  shows "\<exists>e. spline_loop E u F = Inl e"
proof (cases "shape F ! 0 < shape F ! 1")
  case True
  with assms have "(shape F ! 0, 0) \<in> set (List.product [0..<shape F ! 1] [0..<shape F ! 0])"
    by simp
  then show ?thesis
    unfolding spline_loop_def by (rule mapE_Inl_mem) simp
next
  case False
  with assms have "(0, shape F ! 1) \<in> set (List.product [0..<shape F ! 1] [0..<shape F ! 0])"
    by simp
  then show ?thesis
    unfolding spline_loop_def by (rule mapE_Inl_mem) simp
qed

lemma spline_loop_square:
  "spline_loop E u F = Inr ts \<Longrightarrow>
     shape F ! 0 = shape F ! 1 \<or> shape F ! 0 = 0 \<or> shape F ! 1 = 0"
  using spline_loop_nonsquare[of F E u] by fastforce

text \<open>A model that the constructor returns is well formed in the heap it leaves.\<close>

lemma FRD_data_wf:
  assumes "FRD_data E d w s = (Inr r, s')" and "wf_array d" and "wf_array w"
  shows "is_frd s' r"
proof -
  from FRD_data_Inr[OF assms(1)] obtain ts where
    r: "r = length (frds s)" and ar: "arrays s' = arrays s @ [data w]" and
    fr: "frds s' = frds s @
            [\<lparr>omega = length (arrays s), fresp = d,
              ifunc = \<lparr>nrows = shape d ! 1, ncols = shape d ! 0, entries = ts\<rparr>,
              inputs = shape d ! 1, outputs = shape d ! 0\<rparr>]" and
    sl: "spline_loop E (data w) d = Inr ts" and
    l3: "length (shape d) = 3" and sw: "shape w = [shape d ! 2]"
    by blast
  from l3 obtain a b c where d: "shape d = [a, b, c]"
    by (cases "shape d"; cases "tl (shape d)"; cases "tl (tl (shape d))") auto
  from assms(3) sw have lw: "length (data w) = shape d ! 2"
    by (simp add: wf_array_def)
  from r ar fr d lw assms(2) length_spline_loop[OF sl] spline_loop_square[OF sl]
  show ?thesis
    by (auto simp: is_frd_def wf_frd_def)
qed


subsection \<open>The example heap\<close>

lemma FRD_const3:
  "FRD_data table_ext (const3 (of_real c)) (array1 [1, 2, 3]) s =
     (Inr (length (frds s)),
      s\<lparr>arrays := arrays s @ [[1, 2, 3]],
        frds := frds s @ [\<lparr>omega = length (arrays s), fresp = const3 (of_real c),
           ifunc = siso_tab c, inputs = 1, outputs = 1\<rparr>]\<rparr>)"
  by (simp add: FRD_data_def const3_def array1_def spline_loop_def spline_of_def row3_def
      get3_def table_ext_def siso_tab_def upt_conv_Cons)

lemma heap_ab_eq:
  "heap_ab = \<lparr>arrays = [[1, 2, 3], [1, 2, 3]],
     frds = [\<lparr>omega = 0, fresp = const3 2, ifunc = siso_tab 2, inputs = 1, outputs = 1\<rparr>,
             \<lparr>omega = 1, fresp = const3 4, ifunc = siso_tab 4, inputs = 1, outputs = 1\<rparr>]\<rparr>"
  using FRD_const3[of 2 empty_heap]
    FRD_const3[of 4 "snd (FRD_data table_ext (const3 2) (array1 [1, 2, 3]) empty_heap)"]
  by (simp add: heap_ab_def empty_heap_def)

subsection \<open>Construction from a response and a frequency vector\<close>

lemma FRD_init_shape_errors:
  "length (shape d) \<noteq> 3 \<Longrightarrow> FRD_data E d w s = (Inl (TypeError msg_shape), s)"
  "length (shape d) = 3 \<Longrightarrow> shape w \<noteq> [] \<Longrightarrow> last (shape d) \<noteq> last (shape w) \<Longrightarrow>
     FRD_data E d w s = (Inl (TypeError msg_shape), s)"
  "length (shape d) = 3 \<Longrightarrow> 1 < length (shape w) \<Longrightarrow>
     FRD_data E d w s = (Inl (TypeError msg_shape), s)"
  "length (shape d) = 3 \<Longrightarrow> shape w = [] \<Longrightarrow> FRD_data E d w s = (Inl IndexError, s)"
  by (auto simp: FRD_data_def)

text \<open>
  A tensor with different, nonzero numbers of outputs and inputs is never accepted: the
  spline loop indexes the tensor with the two counts exchanged.
\<close>

lemma FRD_init_nonsquare_fails:
  assumes "shape d = [no, ni, n]" "no \<noteq> ni" "0 < no" "0 < ni"
  shows "\<exists>e. fst (FRD_data E d w s) = Inl e"
proof -
  from assms obtain e where "spline_loop E (data w) d = Inl e"
    using spline_loop_nonsquare[of d E "data w"] by auto
  with assms show ?thesis
    by (simp add: FRD_data_def)
qed

lemma FRD_init_2_3_5:
  "fst (FRD_data table_ext (tabulate3 2 3 5 (\<lambda>i j k. 0)) (array1 [1, 2, 3, 4, 5]) empty_heap)
     = Inl IndexError"
  by (simp add: FRD_data_def tabulate3_def array1_def spline_loop_def spline_of_def
      table_ext_def upt_conv_Cons)

lemma FRD_init_2_3_5_short_axis:
  "fst (FRD_data table_ext (tabulate3 2 3 5 (\<lambda>i j k. 0)) (array1 [1, 2, 3, 4]) empty_heap)
     = Inl (TypeError msg_shape)"
  by (simp add: FRD_data_def tabulate3_def array1_def)

text \<open>
  C3 (construction from a response tensor and a frequency axis). The claim has a 1-d
  response treated as a SISO system and reshaped to 1 x 1 x N, as the docstring of the
  constructor says. The source evaluates \<open>self.fresp.reshape(1, 1, len(args[0]))\<close>
  without assigning the result, so the response is still 1-d when its shape is tested:
  for every 1-d response, whatever the frequency vector, the constructor raises the
  TypeError of the shape test and leaves the heap as it was.
\<close>

theorem FRD_init_1d_rejected:
  "length (shape d) = 1 \<Longrightarrow> FRD_data E d w s = (Inl (TypeError msg_shape), s)"
  by (simp add: FRD_data_def)

theorem FRD_init_1d_rejected_witness:
  "FRD_data table_ext \<lparr>shape = [1], data = [1]\<rparr> \<lparr>shape = [1], data = [1]\<rparr> empty_heap
     = (Inl (TypeError msg_shape), empty_heap)"
  using FRD_init_1d_rejected
    [of "\<lparr>shape = [1], data = [1]\<rparr>" table_ext "\<lparr>shape = [1], data = [1]\<rparr>" empty_heap]
  by simp

subsection \<open>Multiplication\<close>

lemma nested3_rejected:
  "FRD_data E (nested3 no ni (0::complex)) (nested3 no ni (1::real)) s
     = (Inl (TypeError msg_shape), s)"
  by (simp add: FRD_data_def nested3_def)

text \<open>No product is ever returned, whatever the operands.\<close>

lemma mul_never_returns: "\<exists>e. fst (mul E self other s) = Inl e"
  by (auto simp: mul_def Let_def nested3_rejected split: prod.splits sum.splits operand.splits)

text \<open>
  C1 (product of two models on the same axis). The claim has \<open>a * b\<close> equal to 8 at the
  frequencies 1, 2, 3 for the SISO models \<open>a\<close> and \<open>b\<close> of constant responses 2 and 4.
  The body of \<open>__mul__\<close> reads \<open>self.num\<close>, \<open>self.den\<close>, \<open>other.num\<close> and \<open>other.den\<close>,
  attributes of a transfer function that an FRD does not have: on these two models the
  product raises AttributeError.
\<close>

theorem mul_siso_attribute_error:
  "fst (mul table_ext 0 (FRDRef 1) heap_ab) = Inl (AttributeError ''num'')"
  by (simp add: heap_ab_eq mul_def convertToFRD_def sort_inplace_def bcast1_def epsw_def Let_def)

subsection \<open>Division\<close>

lemma div_never_returns: "\<exists>e. fst (div' E self other s) = Inl e"
  by (auto simp: div'_def Let_def split: prod.splits sum.splits operand.splits)

text \<open>
  C5 (quotient of two SISO models). The claim has \<open>a / b\<close> equal to 0.5 at each sampled
  frequency for the SISO models \<open>a\<close> and \<open>b\<close> of constant responses 2 and 4. After the
  SISO test, \<open>__div__\<close> reads \<open>self.num[0][0]\<close>, which an FRD does not have: on these
  two models the quotient raises AttributeError.
\<close>

theorem div_siso_attribute_error:
  "fst (div' table_ext 0 (FRDRef 1) heap_ab) = Inl (AttributeError ''num'')"
  by (simp add: heap_ab_eq div'_def convertToFRD_def sort_inplace_def bcast1_def epsw_def Let_def)

subsection \<open>Exponentiation\<close>

lemma unity_fails: "unity E s = (Inl (TypeError msg_shape), s)"
  by (simp add: unity_def FRD_data_def)

lemma pow_int_never_returns: "\<exists>e. fst (pow_int E self n s) = Inl e"
proof (induction E self n s rule: pow_int.induct)
  case (1 E self n s)
  show ?case
  proof (cases "n = 0")
    case True
    then show ?thesis by (subst pow_int.simps) (simp add: unity_fails)
  next
    case False
    show ?thesis
    proof (cases "0 < n")
      case True
      with False "1.IH"(1) obtain e where "fst (pow_int E self (n - 1) s) = Inl e"
        by blast
      with True False show ?thesis
        by (subst pow_int.simps) (auto split: prod.splits sum.splits)
    next
      case neg: False
      with False show ?thesis
        by (subst pow_int.simps) (simp add: unity_fails)
    qed
  qed
qed

text \<open>An exponent that is not an \<open>int\<close> is refused with the ValueError of the source.\<close>

lemma pow_non_int:
  "pow E self (PyLong n) s = (Inl (ValueError msg_exponent), s)"
  "pow E self (PyFloat x) s = (Inl (ValueError msg_exponent), s)"
  "pow E self (PyComplex z) s = (Inl (ValueError msg_exponent), s)"
  "pow E self (PyBool b) s = (Inl (ValueError msg_exponent), s)"
  by (simp_all add: pow_def)

text \<open>No power is ever returned, whatever the exponent.\<close>

lemma pow_never_returns: "\<exists>e. fst (pow E self x s) = Inl e"
  by (cases x) (simp_all add: pow_def pow_int_never_returns)

lemma pow_minus_type_error:
  "fst (pow table_ext 0 (PyInt (- 1)) heap_ab) = Inl (TypeError msg_shape)"
  by (simp add: pow_def pow_int.simps[of _ _ "- 1"] unity_fails)

text \<open>
  C4 (exponentiation). The claim has \<open>m ** 0\<close> equal to the SISO unity response. The
  source builds it as \<open>FRD([1],[1])\<close>, a 1-d response, which the constructor rejects
  (the reshape of a 1-d response is dropped): \<open>m ** 0\<close> raises TypeError, here for the
  SISO model \<open>a\<close> of constant response 2.
\<close>

theorem pow_zero_type_error:
  "fst (pow table_ext 0 (PyInt 0) heap_ab) = Inl (TypeError msg_shape)"
  by (simp add: pow_def pow_int.simps[of _ _ 0] unity_fails)

subsection \<open>Conversion of a model to a frequency grid\<close>

lemma bcast1_same_length: "length xs = length ys \<Longrightarrow> bcast1 xs ys = Inr (zip xs ys)"
  by (simp add: bcast1_def)

lemma list_all_zip:
  "length xs = length ys \<Longrightarrow> list_all P (zip xs ys) = (\<forall>k<length xs. P (xs ! k, ys ! k))"
  by (simp add: list_all_length)

lemma frds_sort_inplace: "frds (sort_inplace a s) = frds s"
  by (simp add: sort_inplace_def)

lemma length_arrays_sort_inplace: "length (arrays (sort_inplace a s)) = length (arrays s)"
  by (simp add: sort_inplace_def)

lemma sort_inplace_sorted: "sorted (arrays s ! a) \<Longrightarrow> sort_inplace a s = s"
  by (simp add: sort_inplace_def sorted_sort_id)

lemma convertToFRD_fast_path:
  assumes "length (arrays (sort_inplace om s) ! omega (frds s ! r)) =
           length (arrays (sort_inplace om s) ! om)"
    and "\<forall>k<length (arrays (sort_inplace om s) ! om).
           \<bar>arrays (sort_inplace om s) ! om ! k -
            arrays (sort_inplace om s) ! omega (frds s ! r) ! k\<bar> < epsw"
  shows "convertToFRD E (FRDRef r) om ni no s = (Inr r, sort_inplace om s)"
  using assms
  by (simp add: convertToFRD_def Let_def frds_sort_inplace bcast1_same_length list_all_zip)

text \<open>
  C9 (a model whose axis matches the target axis is returned as it is). Let the target
  axis be sorted ascending, as a frequency axis is, and let the axis of the model \<open>r\<close>
  have the same length and differ from it by less than \<open>epsw\<close> = 1e-8 at every index.
  Then \<open>_convertToFRD\<close> returns the address \<open>r\<close> it was given, and the heap it was
  given: no model was constructed, no array was copied or changed.
\<close>

theorem convertToFRD_matching_axis:
  assumes "sorted (arrays s ! om)"
    and "length (arrays s ! omega (frds s ! r)) = length (arrays s ! om)"
    and "\<forall>k<length (arrays s ! om).
           \<bar>arrays s ! om ! k - arrays s ! omega (frds s ! r) ! k\<bar> < epsw"
  shows "convertToFRD E (FRDRef r) om ni no s = (Inr r, s)"
  using assms convertToFRD_fast_path[of om s r E ni no]
  by (simp add: sort_inplace_sorted)

theorem convertToFRD_matching_axis_witness:
  "convertToFRD table_ext (FRDRef 1) 0 1 1 heap_ab = (Inr 1, heap_ab)"
  using convertToFRD_matching_axis[of heap_ab 0 1 table_ext 1 1]
  by (simp add: heap_ab_eq epsw_def)

subsection \<open>The in-place sort of the target axis\<close>

lemma extends_refl: "extends s s"
  by (simp add: extends_def)





lemma extends_sorts_target:
  "extends (sort_inplace om s) s' \<Longrightarrow> om < length (arrays s) \<Longrightarrow> sorts_target om s s'"
proof -
  assume e: "extends (sort_inplace om s) s'" and om: "om < length (arrays s)"
  from e have t: "take (length (arrays s)) (arrays s') = (arrays s)[om := sort (arrays s ! om)]"
    and f: "take (length (frds s)) (frds s') = frds s"
    by (simp_all add: extends_def sort_inplace_def)
  from om have "arrays s' ! om = take (length (arrays s)) (arrays s') ! om"
    by simp
  with t om have "arrays s' ! om = sort (arrays s ! om)"
    by simp
  with t f show ?thesis
    by (simp add: sorts_target_def)
qed














subsection \<open>Addition\<close>

lemma idx3_less: "i < n0 \<Longrightarrow> j < n1 \<Longrightarrow> k < n2 \<Longrightarrow> (i * n1 + j) * n2 + k < n0 * n1 * (n2::nat)"
  by (intro idx2_less) auto

lemma epsw_pos: "0 < epsw"
  by (simp add: epsw_def)

lemma get3_zip_sum:
  assumes "shape Fa = [no, ni, n]" "shape Fb = [no, ni, n]" "wf_array Fa" "wf_array Fb"
    and "i < no" "j < ni" "k < n"
  shows "get3 \<lparr>shape = [no, ni, n], data = map (\<lambda>(x, y). x + y) (zip (data Fa) (data Fb))\<rparr> i j k
           = get3 Fa i j k + get3 Fb i j (k::nat)"
proof -
  have lt: "(i * ni + j) * n + k < no * ni * n"
    using assms(5-7) by (rule idx3_less)
  from assms(1-4) have "length (data Fa) = no * ni * n" "length (data Fb) = no * ni * n"
    by (simp_all add: wf_array_def)
  with lt assms(1,2) show ?thesis
    by (simp add: get3_def)
qed

lemma convertToFRD_same_sorted:
  assumes "arrays s ! omega (frds s ! r) = arrays s ! om" and "sorted (arrays s ! om)"
  shows "convertToFRD E (FRDRef r) om ni no s = (Inr r, s)"
  using assms convertToFRD_fast_path[of om s r E ni no]
  by (simp add: sort_inplace_sorted epsw_pos)

lemma add_same_axis_eq:
  assumes a: "is_frd s a" and b: "is_frd s b"
    and ax: "arrays s ! omega (frds s ! b) = arrays s ! omega (frds s ! a)"
    and srt: "sorted (arrays s ! omega (frds s ! a))"
  shows "add E a (FRDRef b) s =
     (if inputs (frds s ! a) = inputs (frds s ! b) then
        if outputs (frds s ! a) = outputs (frds s ! b) then
          FRD_data E
            \<lparr>shape = shape (fresp (frds s ! a)),
             data = map (\<lambda>(x, y). x + y) (zip (data (fresp (frds s ! a))) (data (fresp (frds s ! b))))\<rparr>
            (array1 (arrays s ! omega (frds s ! a))) s
        else (Inl (ValueError msg_outputs), s)
      else (Inl (ValueError msg_inputs), s))"
proof -
  have c: "convertToFRD E (FRDRef b) (omega (frds s ! a)) ni no s = (Inr b, s)" for ni no
    using ax srt by (rule convertToFRD_same_sorted)
  have pre: "bcast1 (arrays s ! omega (frds s ! b)) (arrays s ! omega (frds s ! a))
      = Inr (zip (arrays s ! omega (frds s ! b)) (arrays s ! omega (frds s ! a)))"
    using ax by (simp add: bcast1_same_length)
  from a b ax have sh: "inputs (frds s ! a) = inputs (frds s ! b) \<Longrightarrow>
      outputs (frds s ! a) = outputs (frds s ! b) \<Longrightarrow>
      shape (fresp (frds s ! a)) = shape (fresp (frds s ! b))"
    by (simp add: is_frd_def wf_frd_def)
  show ?thesis
    using sh by (simp add: add_def bcast1_same_length c np_add_def ax Let_def)
qed

lemma is_frd_heap_ab: "is_frd heap_ab 0" "is_frd heap_ab 1"
  by (simp_all add: heap_ab_eq is_frd_def wf_frd_def wf_array_def const3_def siso_tab_def)

lemma add_ab:
  "add table_ext 0 (FRDRef 1) heap_ab =
     (Inr 2, heap_ab\<lparr>arrays := arrays heap_ab @ [[1, 2, 3]],
         frds := frds heap_ab @ [\<lparr>omega = 2, fresp = const3 6,
           ifunc = siso_tab 6, inputs = 1, outputs = 1\<rparr>]\<rparr>)"
  using add_same_axis_eq[OF is_frd_heap_ab, of table_ext] FRD_const3[of 6 heap_ab]
  by (simp add: heap_ab_eq const3_def array1_def)

text \<open>
  C6 (sum of two models on identical axes). Let \<open>a\<close> and \<open>b\<close> be models of the heap
  whose frequency axes are identical and sorted ascending. If their input counts differ,
  \<open>a + b\<close> raises the ValueError for the inputs; if the input counts agree and the
  output counts differ, the ValueError for the outputs; in both cases the heap is as it
  was. Whenever \<open>a + b\<close> returns a model, the counts agree, the model is a well-formed
  new model with the counts and the tensor shape of \<open>a\<close>, its axis is the axis of \<open>a\<close>,
  and its response at every output, input and frequency index is the sum of the
  responses of \<open>a\<close> and \<open>b\<close> there.
\<close>

theorem add_same_axis:
  assumes a: "is_frd s a" and b: "is_frd s b"
    and ax: "arrays s ! omega (frds s ! b) = arrays s ! omega (frds s ! a)"
    and srt: "sorted (arrays s ! omega (frds s ! a))"
  shows "(inputs (frds s ! a) \<noteq> inputs (frds s ! b) \<longrightarrow>
            add E a (FRDRef b) s = (Inl (ValueError msg_inputs), s)) \<and>
         (inputs (frds s ! a) = inputs (frds s ! b) \<and> outputs (frds s ! a) \<noteq> outputs (frds s ! b) \<longrightarrow>
            add E a (FRDRef b) s = (Inl (ValueError msg_outputs), s)) \<and>
         (\<forall>r s'. add E a (FRDRef b) s = (Inr r, s') \<longrightarrow>
            is_frd s' r \<and>
            inputs (frds s ! a) = inputs (frds s ! b) \<and>
            outputs (frds s ! a) = outputs (frds s ! b) \<and>
            arrays s' ! omega (frds s' ! r) = arrays s ! omega (frds s ! a) \<and>
            inputs (frds s' ! r) = inputs (frds s ! a) \<and>
            outputs (frds s' ! r) = outputs (frds s ! a) \<and>
            shape (fresp (frds s' ! r)) = shape (fresp (frds s ! a)) \<and>
            (\<forall>i<outputs (frds s ! a). \<forall>j<inputs (frds s ! a).
               \<forall>k<length (arrays s ! omega (frds s ! a)).
                 get3 (fresp (frds s' ! r)) i j k =
                 get3 (fresp (frds s ! a)) i j k + get3 (fresp (frds s ! b)) i j k))"
proof (intro conjI allI impI)
  assume "inputs (frds s ! a) \<noteq> inputs (frds s ! b)"
  then show "add E a (FRDRef b) s = (Inl (ValueError msg_inputs), s)"
    by (simp add: add_same_axis_eq[OF assms])
next
  assume "inputs (frds s ! a) = inputs (frds s ! b) \<and> outputs (frds s ! a) \<noteq> outputs (frds s ! b)"
  then show "add E a (FRDRef b) s = (Inl (ValueError msg_outputs), s)"
    by (simp add: add_same_axis_eq[OF assms])
next
  fix r s'
  assume res: "add E a (FRDRef b) s = (Inr r, s')"
  let ?A = "frds s ! a" and ?B = "frds s ! b"
  let ?n = "length (arrays s ! omega ?A)"
  let ?F = "\<lparr>shape = shape (fresp ?A),
             data = map (\<lambda>(x, y). x + y) (zip (data (fresp ?A)) (data (fresp ?B)))\<rparr>"
  from res have ins: "inputs ?A = inputs ?B" and outs: "outputs ?A = outputs ?B"
    by (auto simp: add_same_axis_eq[OF assms] split: if_splits)
  with res have ctor: "FRD_data E ?F (array1 (arrays s ! omega ?A)) s = (Inr r, s')"
    by (simp add: add_same_axis_eq[OF assms])
  from a have shA: "shape (fresp ?A) = [outputs ?A, inputs ?A, ?n]" and wfA: "wf_array (fresp ?A)"
    by (simp_all add: is_frd_def wf_frd_def)
  from b ax ins outs have shB: "shape (fresp ?B) = [outputs ?A, inputs ?A, ?n]"
    and wfB: "wf_array (fresp ?B)"
    by (simp_all add: is_frd_def wf_frd_def)
  have wfF: "wf_array ?F"
    using shA shB wfA wfB by (simp add: wf_array_def)
  from FRD_data_Inr[OF ctor] obtain ts where
    r: "r = length (frds s)" and ar: "arrays s' = arrays s @ [arrays s ! omega ?A]" and
    fr: "frds s' = frds s @
            [\<lparr>omega = length (arrays s), fresp = ?F,
              ifunc = \<lparr>nrows = shape ?F ! 1, ncols = shape ?F ! 0, entries = ts\<rparr>,
              inputs = shape ?F ! 1, outputs = shape ?F ! 0\<rparr>]"
    by (auto simp: array1_def)
  have new: "frds s' ! r = \<lparr>omega = length (arrays s), fresp = ?F,
              ifunc = \<lparr>nrows = shape ?F ! 1, ncols = shape ?F ! 0, entries = ts\<rparr>,
              inputs = shape ?F ! 1, outputs = shape ?F ! 0\<rparr>"
    by (simp add: r fr)
  show "is_frd s' r"
    using ctor wfF by (rule FRD_data_wf) (simp add: wf_array_def array1_def)
  show "inputs ?A = inputs ?B" by (rule ins)
  show "outputs ?A = outputs ?B" by (rule outs)
  show "arrays s' ! omega (frds s' ! r) = arrays s ! omega ?A"
    by (simp add: new ar)
  show "inputs (frds s' ! r) = inputs ?A"
    by (simp add: new shA)
  show "outputs (frds s' ! r) = outputs ?A"
    by (simp add: new shA)
  show "shape (fresp (frds s' ! r)) = shape (fresp ?A)"
    by (simp add: new)
  fix i j k
  assume "i < outputs ?A" "j < inputs ?A" "k < ?n"
  then show "get3 (fresp (frds s' ! r)) i j k = get3 (fresp ?A) i j k + get3 (fresp ?B) i j k"
    using get3_zip_sum[OF shA shB wfA wfB, of i j k] by (simp add: new shA)
qed

theorem add_same_axis_witness:
  "fst (add table_ext 0 (FRDRef 1) heap_ab) = Inr 2 \<and>
   get3 (fresp (frds (snd (add table_ext 0 (FRDRef 1) heap_ab)) ! 2)) 0 0 0 = 6 \<and>
   get3 (fresp (frds (snd (add table_ext 0 (FRDRef 1) heap_ab)) ! 2)) 0 0 1 = 6 \<and>
   get3 (fresp (frds (snd (add table_ext 0 (FRDRef 1) heap_ab)) ! 2)) 0 0 2 = 6 \<and>
   arrays (snd (add table_ext 0 (FRDRef 1) heap_ab)) !
     omega (frds (snd (add table_ext 0 (FRDRef 1) heap_ab)) ! 2) = [1, 2, 3]"
proof -
  let ?s' = "snd (add table_ext 0 (FRDRef 1) heap_ab)"
  have res: "add table_ext 0 (FRDRef 1) heap_ab = (Inr 2, ?s')"
    using add_ab by simp
  have hyp: "arrays heap_ab ! omega (frds heap_ab ! 1) = arrays heap_ab ! omega (frds heap_ab ! 0)"
    "sorted (arrays heap_ab ! omega (frds heap_ab ! 0))"
    by (simp_all add: heap_ab_eq)
  from add_same_axis[OF is_frd_heap_ab hyp, of table_ext] res
  have sum: "\<forall>k<3. get3 (fresp (frds ?s' ! 2)) 0 0 k =
        get3 (fresp (frds heap_ab ! 0)) 0 0 k + get3 (fresp (frds heap_ab ! 1)) 0 0 k"
    and ax: "arrays ?s' ! omega (frds ?s' ! 2) = arrays heap_ab ! omega (frds heap_ab ! 0)"
    by (simp_all add: heap_ab_eq)
  have vals: "get3 (fresp (frds heap_ab ! 0)) 0 0 0 + get3 (fresp (frds heap_ab ! 1)) 0 0 0 = 6"
    "get3 (fresp (frds heap_ab ! 0)) 0 0 1 + get3 (fresp (frds heap_ab ! 1)) 0 0 1 = 6"
    "get3 (fresp (frds heap_ab ! 0)) 0 0 2 + get3 (fresp (frds heap_ab ! 1)) 0 0 2 = 6"
    and axis: "arrays heap_ab ! omega (frds heap_ab ! 0) = [1, 2, 3]"
    by (simp_all add: heap_ab_eq const3_def get3_def)
  from sum have "get3 (fresp (frds ?s' ! 2)) 0 0 0 =
      get3 (fresp (frds heap_ab ! 0)) 0 0 0 + get3 (fresp (frds heap_ab ! 1)) 0 0 0"
    "get3 (fresp (frds ?s' ! 2)) 0 0 1 =
      get3 (fresp (frds heap_ab ! 0)) 0 0 1 + get3 (fresp (frds heap_ab ! 1)) 0 0 1"
    "get3 (fresp (frds ?s' ! 2)) 0 0 2 =
      get3 (fresp (frds heap_ab ! 0)) 0 0 2 + get3 (fresp (frds heap_ab ! 1)) 0 0 2"
    by simp_all
  moreover have "fst (add table_ext 0 (FRDRef 1) heap_ab) = Inr 2"
    using add_ab by simp
  ultimately show ?thesis
    by (simp only: vals axis ax simp_thms)
qed

subsection \<open>Evaluation and the frequency sweep\<close>

text \<open>On a well-formed model \<open>evalfr\<close> does not raise.\<close>

lemma evalfr_wf:
  assumes "wf_frd s M"
  shows "evalfr E M x =
     Inr (mtab (outputs M) (inputs M)
            (\<lambda>i j. Complex (fst (splev E x (mget (ifunc M) i j)))
                            (snd (splev E x (mget (ifunc M) i j)))))"
proof -
  let ?h = "\<lambda>i j. Complex (fst (splev E x (mget (ifunc M) i j)))
                           (snd (splev E x (mget (ifunc M) i j)))"
  let ?f = "\<lambda>(i, j). if i < nrows (ifunc M) \<and> j < ncols (ifunc M)
                         then Inr (?h i j) else Inl IndexError"
  from assms have dims: "nrows (ifunc M) = inputs M" "ncols (ifunc M) = outputs M"
    and sq: "outputs M = inputs M \<or> outputs M = 0 \<or> inputs M = 0"
    by (simp_all add: wf_frd_def)
  have "?f p = Inr ((\<lambda>(i, j). ?h i j) p)"
    if "p \<in> set (List.product [0..<outputs M] [0..<inputs M])" for p
  proof -
    obtain i j where p: "p = (i, j)"
      by (cases p)
    with that have "i < outputs M" "j < inputs M"
      by simp_all
    with dims sq have "i < nrows (ifunc M) \<and> j < ncols (ifunc M)"
      by auto
    with p show ?thesis
      by simp
  qed
  then have "mapE ?f (List.product [0..<outputs M] [0..<inputs M]) =
      Inr (map (\<lambda>(i, j). ?h i j) (List.product [0..<outputs M] [0..<inputs M]))"
    by (rule mapE_all_Inr)
  then show ?thesis
    by (simp add: evalfr_def mtab_def map_product)
qed

text \<open>
  \<open>numpy.angle\<close> is the principal value of the argument: \<open>arctan2\<close> of the imaginary
  and the real part lies in \<open>(-\<pi>, \<pi>]\<close> and is the angle of the number.
\<close>

lemma sqrt_one_plus_ratio:
  assumes "x \<noteq> 0"
  shows "sqrt (1 + (y / x)\<^sup>2) = sqrt (x\<^sup>2 + y\<^sup>2) / \<bar>x::real\<bar>"
proof -
  from assms have "1 + (y / x)\<^sup>2 = (x\<^sup>2 + y\<^sup>2) / x\<^sup>2"
    by (simp add: field_simps power2_eq_square)
  then show ?thesis
    by (simp add: real_sqrt_divide)
qed

lemma arctan2_bounds: "- pi < arctan2 y x \<and> arctan2 y x \<le> pi"
proof -
  have b: "- (pi / 2) < arctan t" "arctan t < pi / 2" for t
    by (rule arctan_lbound, rule arctan_ubound)
  have neg: "arctan t \<le> 0" if "t \<le> 0" for t :: real
    using that arctan_monotone'[of t 0] by simp
  have pos: "0 < arctan t" if "0 < t" for t :: real
    using that arctan_monotone[of 0 t] by simp
  show ?thesis
  proof (cases "0 < x")
    case True
    with b[of "y / x"] show ?thesis
      by (simp add: arctan2_def)
  next
    case False
    show ?thesis
    proof (cases "x < 0")
      case x: True
      show ?thesis
      proof (cases "0 \<le> y")
        case True
        with x have "y / x \<le> 0"
          by (simp add: divide_nonneg_neg)
        with neg[of "y / x"] b[of "y / x"] x True show ?thesis
          by (simp add: arctan2_def)
      next
        case y: False
        with x have "0 < y / x"
          by (simp add: divide_neg_neg)
        with pos[of "y / x"] b[of "y / x"] x y show ?thesis
          by (simp add: arctan2_def)
      qed
    next
      case x0: False
      with False show ?thesis
        by (auto simp: arctan2_def) (insert pi_gt_zero, linarith)
    qed
  qed
qed

lemma cos_sin_arctan2:
  assumes "x \<noteq> 0 \<or> y \<noteq> 0"
  shows "cos (arctan2 y x) = x / sqrt (x\<^sup>2 + y\<^sup>2) \<and> sin (arctan2 y x) = y / sqrt (x\<^sup>2 + y\<^sup>2)"
proof (cases "x = 0")
  case True
  with assms have "y \<noteq> 0" by simp
  with True show ?thesis
    by (auto simp: arctan2_def real_sqrt_abs abs_if)
next
  case False
  let ?r = "sqrt (x\<^sup>2 + y\<^sup>2)"
  from False have r: "0 < ?r"
    by (simp add: sum_power2_gt_zero_iff)
  have c: "cos (arctan (y / x)) = \<bar>x\<bar> / ?r" and s: "sin (arctan (y / x)) = (y / x) * \<bar>x\<bar> / ?r"
    using False by (simp_all add: cos_arctan sin_arctan sqrt_one_plus_ratio)
  show ?thesis
  proof (cases "0 < x")
    case True
    with c s show ?thesis
      by (simp add: arctan2_def)
  next
    case neg: False
    with False have "x < 0" by simp
    with c s show ?thesis
      by (simp add: arctan2_def)
  qed
qed

lemma angle_eq_Arg: "angle z = Arg z"
proof (cases "z = 0")
  case True
  then show ?thesis
    by (simp add: angle_def arctan2_def Arg_zero)
next
  case False
  then have nz: "Re z \<noteq> 0 \<or> Im z \<noteq> 0"
    by (auto simp: complex_eq_iff)
  from cos_sin_arctan2[OF nz] have "sgn z = cis (angle z)"
    by (simp add: complex_eq_iff angle_def sgn_eq cmod_def)
  moreover from arctan2_bounds[of "Im z" "Re z"] have "- pi < angle z" "angle z \<le> pi"
    by (simp_all add: angle_def)
  ultimately have "Arg z = angle z"
    by (rule cis_Arg_unique)
  then show ?thesis by simp
qed

lemma cmod_Complex_0: "cmod (Complex x 0) = \<bar>x\<bar>"
  by (simp add: complex_norm)

text \<open>
  C8 (frequency sweep). For a well-formed model and the caller's sequence of \<open>N\<close>
  frequencies at address \<open>om\<close>, \<open>freqresp\<close> returns; the heap it leaves is the heap it
  was given with that sequence sorted ascending in place and nothing else changed; its
  third result is the address of that same sequence; its first two results are arrays
  of shape \<open>[outputs, inputs, N]\<close> whose entries at index \<open>k\<close> are the absolute value and
  the angle (\<open>arctan2\<close> of the imaginary and the real part, which is the principal
  value \<open>Arg\<close> of the argument) of the entries of \<open>evalfr\<close> at the \<open>k\<close>-th frequency of
  the sorted sequence.
\<close>

theorem freqresp_sweep:
  assumes "is_frd s m" and "om < length (arrays s)"
  shows "\<exists>mag ph.
           freqresp E m om s = (Inr (mag, ph, om), sort_inplace om s) \<and>
           sorts_target om s (sort_inplace om s) \<and>
           arrays (sort_inplace om s) ! om = sort (arrays s ! om) \<and>
           shape mag = [outputs (frds s ! m), inputs (frds s ! m), length (arrays s ! om)] \<and>
           shape ph = [outputs (frds s ! m), inputs (frds s ! m), length (arrays s ! om)] \<and>
           wf_array mag \<and> wf_array ph \<and>
           (\<forall>k<length (arrays s ! om).
              \<exists>V. evalfr E (frds s ! m) (sort (arrays s ! om) ! k) = Inr V \<and>
                  (\<forall>i<outputs (frds s ! m). \<forall>j<inputs (frds s ! m).
                     get3 mag i j k = cmod (mget V i j) \<and>
                     get3 ph i j k = angle (mget V i j) \<and>
                     get3 ph i j k = Arg (mget V i j)))"
proof -
  let ?M = "frds s ! m"
  let ?w = "sort (arrays s ! om)"
  let ?n = "length (arrays s ! om)"
  let ?V = "\<lambda>x. mtab (outputs ?M) (inputs ?M)
            (\<lambda>i j. Complex (fst (splev E x (mget (ifunc ?M) i j)))
                            (snd (splev E x (mget (ifunc ?M) i j))))"
  let ?mag = "tabulate3 (outputs ?M) (inputs ?M) ?n (\<lambda>i j k. cmod (mget (map ?V ?w ! k) i j))"
  let ?ph = "tabulate3 (outputs ?M) (inputs ?M) ?n (\<lambda>i j k. angle (mget (map ?V ?w ! k) i j))"
  from assms(1) have wf: "wf_frd s ?M"
    by (simp add: is_frd_def)
  have ev: "evalfr E ?M x = Inr (?V x)" for x
    using wf by (rule evalfr_wf)
  have w: "arrays (sort_inplace om s) ! om = ?w"
    using assms(2) by (simp add: sort_inplace_def)
  have loop: "mapE (\<lambda>x. evalfr E ?M x) ?w = Inr (map ?V ?w)"
    by (rule mapE_all_Inr) (rule ev)
  have res: "freqresp E m om s = (Inr (?mag, ?ph, om), sort_inplace om s)"
    by (simp add: freqresp_def Let_def frds_sort_inplace w loop)
  have st: "sorts_target om s (sort_inplace om s)"
    using assms(2) by (intro extends_sorts_target extends_refl)
  have vals: "\<exists>V. evalfr E ?M (?w ! k) = Inr V \<and>
                  (\<forall>i<outputs ?M. \<forall>j<inputs ?M.
                     get3 ?mag i j k = cmod (mget V i j) \<and>
                     get3 ?ph i j k = angle (mget V i j) \<and>
                     get3 ?ph i j k = Arg (mget V i j))" if "k < ?n" for k
    using that by (intro exI[of _ "?V (?w ! k)"]) (simp add: ev get3_tabulate3 angle_eq_Arg)
  show ?thesis
    apply (rule exI[of _ ?mag], rule exI[of _ ?ph])
    using res st w vals
    apply (simp add: wf_tabulate3)
    apply (simp add: tabulate3_def)
    done
qed

theorem freqresp_sweep_witness:
  "(\<exists>mag ph. fst (freqresp table_ext 0 2 heap_q) = Inr (mag, ph, 2) \<and>
      shape mag = [1, 1, 3] \<and> shape ph = [1, 1, 3] \<and>
      get3 mag 0 0 0 = 2 \<and> get3 mag 0 0 1 = 2 \<and> get3 mag 0 0 2 = 2) \<and>
   arrays heap_q ! 2 = [3, 1, 2] \<and>
   arrays (snd (freqresp table_ext 0 2 heap_q)) ! 2 = [1, 2, 3]"
proof -
  have h: "is_frd heap_q 0" "2 < length (arrays heap_q)"
    by (simp_all add: heap_q_def heap_ab_eq is_frd_def wf_frd_def wf_array_def const3_def
        siso_tab_def)
  have len: "length (arrays heap_q ! 2) = 3" and srt: "sort (arrays heap_q ! 2) = [1, 2, 3]"
    and me: "outputs (frds heap_q ! 0) = 1" "inputs (frds heap_q ! 0) = 1"
    and old: "arrays heap_q ! 2 = [3, 1, 2]"
    by (simp_all add: heap_q_def heap_ab_eq)
  have ev: "evalfr table_ext (frds heap_q ! 0) x = Inr V \<Longrightarrow> x \<in> {1, 2, 3} \<Longrightarrow>
      cmod (mget V 0 0) = 2" for x V
    by (auto simp: evalfr_def heap_q_def heap_ab_eq siso_tab_def table_ext_def mget_def
        cmod_Complex_0)
  from freqresp_sweep[OF h, of table_ext] obtain mag ph where
    res: "freqresp table_ext 0 2 heap_q = (Inr (mag, ph, 2), sort_inplace 2 heap_q)" and
    ar: "arrays (sort_inplace 2 heap_q) ! 2 = sort (arrays heap_q ! 2)" and
    sh: "shape mag = [1, 1, 3]" "shape ph = [1, 1, 3]" and
    vals: "\<forall>k<3. \<exists>V. evalfr table_ext (frds heap_q ! 0) ([1, 2, 3] ! k) = Inr V \<and>
             get3 mag 0 0 k = cmod (mget V 0 0) \<and> get3 ph 0 0 k = angle (mget V 0 0) \<and>
             get3 ph 0 0 k = Arg (mget V 0 0)"
    unfolding len srt me by auto
  from spec[OF vals, of 0] spec[OF vals, of 1] spec[OF vals, of 2]
  have "\<exists>V. evalfr table_ext (frds heap_q ! 0) 1 = Inr V \<and> get3 mag 0 0 0 = cmod (mget V 0 0)"
    "\<exists>V. evalfr table_ext (frds heap_q ! 0) 2 = Inr V \<and> get3 mag 0 0 1 = cmod (mget V 0 0)"
    "\<exists>V. evalfr table_ext (frds heap_q ! 0) 3 = Inr V \<and> get3 mag 0 0 2 = cmod (mget V 0 0)"
    by auto
  with ev[of 1] ev[of 2] ev[of 3]
  have "get3 mag 0 0 0 = 2" "get3 mag 0 0 1 = 2" "get3 mag 0 0 2 = 2"
    by auto
  with res ar sh srt old show ?thesis
    by auto
qed

subsection \<open>Feedback\<close>

lemma slice3_wf:
  "shape F = [no, ni, n] \<Longrightarrow> k < n \<Longrightarrow> slice3 F k = Inr (mtab no ni (\<lambda>i j. get3 F i j k))"
  by (simp add: slice3_def)

lemma bget_mget: "i < nrows M \<Longrightarrow> j < ncols M \<Longrightarrow> bget M i j = mget M i j"
  by (auto simp: bget_def)

lemma mtab_mget: "M = mtab nr nc f \<Longrightarrow> mtab nr nc (\<lambda>i j. mget M i j) = M"
  using mtab_cong[of nr nc "\<lambda>i j. mget (mtab nr nc f) i j" f] by (simp add: mget_mtab)

lemma nrows_mtab [simp]: "nrows (mtab nr nc f) = nr"
  and ncols_mtab [simp]: "ncols (mtab nr nc f) = nc"
  by (simp_all add: mtab_def)

lemma fill_slices_Inr:
  assumes "fill_slices no ni n f = Inr T"
  shows "shape T = [no, ni, n] \<and> wf_array T \<and>
         (\<forall>k<n. \<exists>M. f k = Inr M \<and> (nrows M = no \<or> nrows M = 1) \<and> (ncols M = ni \<or> ncols M = 1) \<and>
               (\<forall>i<no. \<forall>j<ni. get3 T i j k = bget M i j))"
proof -
  let ?g = "\<lambda>k. case f k of
                       Inl e \<Rightarrow> Inl e
                     | Inr M \<Rightarrow>
                         if (nrows M = no \<or> nrows M = 1) \<and> (ncols M = ni \<or> ncols M = 1)
                         then Inr M else Inl (ValueError msg_broadcast)"
  from assms obtain Ms where Ms: "mapE ?g [0..<n] = Inr Ms"
    and T: "T = tabulate3 no ni n (\<lambda>i j k. bget (Ms ! k) i j)"
    by (auto simp: fill_slices_def split: sum.splits)
  have "\<exists>M. f k = Inr M \<and> (nrows M = no \<or> nrows M = 1) \<and> (ncols M = ni \<or> ncols M = 1) \<and>
               (\<forall>i<no. \<forall>j<ni. get3 T i j k = bget M i j)" if k: "k < n" for k
  proof -
    from mapE_Inr_nth[OF Ms, of k] k have "?g k = Inr (Ms ! k)"
      by simp
    then have "f k = Inr (Ms ! k)" and "(nrows (Ms ! k) = no \<or> nrows (Ms ! k) = 1)"
      and "(ncols (Ms ! k) = ni \<or> ncols (Ms ! k) = 1)"
      by (auto split: sum.splits if_splits)
    with k show ?thesis
      by (simp add: T get3_tabulate3)
  qed
  then show ?thesis
    by (simp add: T wf_tabulate3) (simp add: tabulate3_def)
qed

lemma feedback_same_axis_eq:
  assumes p: "is_frd s p" and c: "is_frd s c"
    and ax: "arrays s ! omega (frds s ! c) = arrays s ! omega (frds s ! p)"
    and srt: "sorted (arrays s ! omega (frds s ! p))"
  shows "feedback E p (FRDRef c) sg s =
     (if outputs (frds s ! p) = inputs (frds s ! c) \<and> inputs (frds s ! p) = outputs (frds s ! c) then
        (case fill_slices (outputs (frds s ! p)) (inputs (frds s ! p))
                (length (arrays s ! omega (frds s ! p)))
                (\<lambda>k. feedback_sample E (frds s ! p) (frds s ! c) k) of
           Inl e \<Rightarrow> (Inl e, s)
         | Inr F \<Rightarrow> FRD_data E F (array1 (arrays s ! omega (frds s ! p))) s)
      else (Inl (ValueError msg_feedback), s))"
proof -
  have cv: "convertToFRD E (FRDRef c) (omega (frds s ! p)) ni no s = (Inr c, s)" for ni no
    using ax srt by (rule convertToFRD_same_sorted)
  show ?thesis
    by (simp add: feedback_def cv ax Let_def cong: sum.case_cong)
qed

lemma sum_list_upt: "(\<Sum>k\<leftarrow>[0..<n]. f k) = (\<Sum>k = 0..<n. f k)"
  by (simp add: interv_sum_list_conv_sum_set_nat)

text \<open>If \<open>A X = I\<close> then \<open>A (X P) = P\<close>.\<close>

lemma matmul_cancel:
  assumes AX: "matmul A X = Inr (eye n)"
    and XP: "matmul X (mtab n ni g) = Inr R"
  shows "matmul A R = Inr (mtab n ni (g :: nat \<Rightarrow> nat \<Rightarrow> complex))"
proof -
  let ?P = "mtab n ni g"
  from AX have cA: "ncols A = nrows X"
    and eq: "mtab (nrows A) (ncols X) (\<lambda>i j. \<Sum>k\<leftarrow>[0..<ncols A]. mget A i k * mget X k j) = eye n"
    by (auto simp: matmul_def split: if_splits)
  from eq have rA: "nrows A = n" and cX: "ncols X = n"
    by (simp_all add: eye_def mtab_def)
  have AXij: "(\<Sum>k = 0..<ncols A. mget A i k * mget X k l) = (if i = l then 1 else 0)"
    if "i < n" "l < n" for i l
  proof -
    have "mget (mtab (nrows A) (ncols X) (\<lambda>i j. \<Sum>k\<leftarrow>[0..<ncols A]. mget A i k * mget X k j)) i l
          = mget (eye n) i l"
      by (simp only: eq)
    with that rA cX show ?thesis
      by (simp add: mget_mtab eye_def sum_list_upt)
  qed
  from XP cX have R: "R = mtab (nrows X) ni (\<lambda>i j. \<Sum>l\<leftarrow>[0..<n]. mget X i l * mget ?P l j)"
    by (auto simp: matmul_def split: if_splits)
  have Rkj: "mget R k j = (\<Sum>l = 0..<n. mget X k l * g l j)" if "k < nrows X" "j < ni" for k j
    using that by (simp add: R mget_mtab sum_list_upt)
  have "(\<Sum>k = 0..<ncols A. mget A i k * mget R k j) = g i j" if ij: "i < n" "j < ni" for i j
  proof -
    have "(\<Sum>k = 0..<ncols A. mget A i k * mget R k j)
        = (\<Sum>k = 0..<ncols A. mget A i k * (\<Sum>l = 0..<n. mget X k l * g l j))"
      using ij cA by (intro sum.cong) (simp_all add: Rkj)
    also have "\<dots> = (\<Sum>k = 0..<ncols A. \<Sum>l = 0..<n. mget A i k * mget X k l * g l j)"
      by (simp add: sum_distrib_left mult.assoc)
    also have "\<dots> = (\<Sum>l = 0..<n. \<Sum>k = 0..<ncols A. mget A i k * mget X k l * g l j)"
      by (rule sum.swap)
    also have "\<dots> = (\<Sum>l = 0..<n. (\<Sum>k = 0..<ncols A. mget A i k * mget X k l) * g l j)"
      by (simp add: sum_distrib_right)
    also have "\<dots> = (\<Sum>l = 0..<n. (if i = l then 1 else 0) * g l j)"
      using ij by (intro sum.cong) (simp_all add: AXij)
    also have "\<dots> = (\<Sum>l = 0..<n. if l = i then g l j else 0)"
      by (intro sum.cong) auto
    also have "\<dots> = g i j"
      using ij by (simp add: sum.delta)
    finally show ?thesis .
  qed
  then have "mtab n ni (\<lambda>i j. \<Sum>k\<leftarrow>[0..<ncols A]. mget A i k * mget R k j) = mtab n ni g"
    by (intro mtab_cong) (simp add: sum_list_upt)
  with cA rA show ?thesis
    by (simp add: matmul_def R)
qed


lemma FRD_data_new:
  assumes "FRD_data E F (array1 ws) s = (Inr r, s')"
  shows "fresp (frds s' ! r) = F \<and> arrays s' ! omega (frds s' ! r) = ws \<and>
         inputs (frds s' ! r) = shape F ! 1 \<and> outputs (frds s' ! r) = shape F ! 0"
  using FRD_data_Inr[OF assms] by (auto simp: array1_def)

lemma feedback_sample_Inr:
  assumes "feedback_sample E me ot k = Inr M"
  shows "\<exists>Pk Ck PC A X.
           slice3 (fresp me) k = Inr Pk \<and> slice3 (fresp ot) k = Inr Ck \<and>
           matmul Pk Ck = Inr PC \<and> mat_add (eye (inputs me)) PC = Inr A \<and>
           solve E A (eye (inputs me)) = Inr X \<and> matmul X Pk = Inr M"
  using assms by (auto simp: feedback_sample_def split: sum.splits)

lemma solve_inverts_table_ext: "solve_inverts table_ext"
proof -
  have "nrows X = n \<and> ncols X = n \<and> matmul A X = Inr (eye n)"
    if "solve1 A (eye n) = Inr X" for A n X
  proof -
    from that obtain a b where A: "entries A = [a]" "nrows A = 1" "ncols A = 1" "a \<noteq> 0"
      and B: "entries (eye n) = [b]" "nrows (eye n) = 1"
      and X: "X = \<lparr>nrows = 1, ncols = 1, entries = [b / a]\<rparr>"
      by (auto simp: solve1_def split: list.splits if_splits)
    from B(2) have n: "n = 1"
      by (simp add: eye_def)
    with B(1) have b: "b = 1"
      by (simp add: eye_def mtab_def)
    from A X b n show ?thesis
      by (simp add: matmul_def mtab_def eye_def mget_def)
  qed
  then show ?thesis
    by (simp add: solve_inverts_def table_ext_def)
qed

lemma feedback_ab:
  "feedback table_ext 0 (FRDRef 1) sg heap_ab =
     (Inr 2, heap_ab\<lparr>arrays := arrays heap_ab @ [[1, 2, 3]],
         frds := frds heap_ab @ [\<lparr>omega = 2, fresp = const3 (2 / 9),
           ifunc = siso_tab (2 / 9), inputs = 1, outputs = 1\<rparr>]\<rparr>)"
proof -
  have hyp: "arrays heap_ab ! omega (frds heap_ab ! 1) = arrays heap_ab ! omega (frds heap_ab ! 0)"
    "sorted (arrays heap_ab ! omega (frds heap_ab ! 0))"
    by (simp_all add: heap_ab_eq)
  have smp: "feedback_sample table_ext (frds heap_ab ! 0) (frds heap_ab ! Suc 0) k
      = Inr \<lparr>nrows = 1, ncols = 1, entries = [2 / 9]\<rparr>" if "k < 3" for k
    using that
    by (simp add: feedback_sample_def heap_ab_eq const3_def slice3_def mtab_def get3_def
        matmul_def mat_add_def bdim_def eye_def bget_def mget_def table_ext_def solve1_def
        nth_Cons')
  have fill: "fill_slices 1 1 3 (\<lambda>k. feedback_sample table_ext (frds heap_ab ! 0) (frds heap_ab ! 1) k)
      = Inr (const3 (2 / 9))"
    by (simp add: fill_slices_def upt_conv_Cons smp tabulate3_def const3_def bget_def mget_def)
  have len: "length (frds heap_ab) = 2" "length (arrays heap_ab) = 2"
    by (simp_all add: heap_ab_eq)
  have cr: "complex_of_real (2 / 9) = 2 / 9"
    by simp
  note ctor = FRD_const3[of "2 / 9" heap_ab, unfolded cr len]
  have me: "outputs (frds heap_ab ! 0) = 1" "inputs (frds heap_ab ! 0) = 1"
    "inputs (frds heap_ab ! 1) = 1" "outputs (frds heap_ab ! 1) = 1"
    "arrays heap_ab ! omega (frds heap_ab ! 0) = [1, 2, 3]"
    by (simp_all add: heap_ab_eq)
  have l3: "length [1, 2, 3 :: real] = 3"
    by simp
  show ?thesis
    unfolding feedback_same_axis_eq[OF is_frd_heap_ab hyp] me l3
    using fill ctor by simp
qed

text \<open>
  C2 (feedback of two models on identical axes). Let \<open>P\<close> (self) and \<open>C\<close> (other) be
  models of the heap whose frequency axes are identical and sorted ascending.
  The result of \<open>P.feedback(C, sign)\<close>, value or exception, and the heap it leaves are
  the same for every \<open>sign\<close>. Unless \<open>P.outputs = C.inputs\<close> and \<open>P.inputs = C.outputs\<close>,
  it raises the ValueError of the mismatch and leaves the heap as it was. Whenever it
  returns a model, the counts match, the model is a well-formed new model on the axis
  of \<open>P\<close> with the counts of \<open>P\<close>, and at every frequency index \<open>k\<close> its response is
  \<open>X P\<^sub>k\<close>, where \<open>X\<close> is what \<open>linalg.solve\<close> returned for the matrix
  \<open>A = I + P\<^sub>k C\<^sub>k\<close> and the right-hand side \<open>I\<close>. When the solver keeps its
  contract (\<open>A X = I\<close>), that response \<open>R\<^sub>k\<close> is the slice of the tensor at \<open>k\<close> and
  satisfies \<open>(I + P\<^sub>k C\<^sub>k) R\<^sub>k = P\<^sub>k\<close>: it is \<open>(I + P\<^sub>k C\<^sub>k)\<^sup>-\<^sup>1 P\<^sub>k\<close>.
\<close>

theorem feedback_same_axis:
  assumes p: "is_frd s p" and c: "is_frd s c"
    and ax: "arrays s ! omega (frds s ! c) = arrays s ! omega (frds s ! p)"
    and srt: "sorted (arrays s ! omega (frds s ! p))"
  shows "(\<forall>sg'. feedback E p (FRDRef c) sg' s = feedback E p (FRDRef c) sg s) \<and>
         (\<not> (outputs (frds s ! p) = inputs (frds s ! c) \<and>
              inputs (frds s ! p) = outputs (frds s ! c)) \<longrightarrow>
            feedback E p (FRDRef c) sg s = (Inl (ValueError msg_feedback), s)) \<and>
         (\<forall>r s'. feedback E p (FRDRef c) sg s = (Inr r, s') \<longrightarrow>
            is_frd s' r \<and>
            outputs (frds s ! p) = inputs (frds s ! c) \<and>
            inputs (frds s ! p) = outputs (frds s ! c) \<and>
            arrays s' ! omega (frds s' ! r) = arrays s ! omega (frds s ! p) \<and>
            outputs (frds s' ! r) = outputs (frds s ! p) \<and>
            inputs (frds s' ! r) = inputs (frds s ! p) \<and>
            (\<forall>k<length (arrays s ! omega (frds s ! p)).
               \<exists>Pk Ck PC A X Rk.
                 slice3 (fresp (frds s ! p)) k = Inr Pk \<and>
                 slice3 (fresp (frds s ! c)) k = Inr Ck \<and>
                 matmul Pk Ck = Inr PC \<and>
                 mat_add (eye (inputs (frds s ! p))) PC = Inr A \<and>
                 solve E A (eye (inputs (frds s ! p))) = Inr X \<and>
                 matmul X Pk = Inr Rk \<and>
                 (\<forall>i<outputs (frds s ! p). \<forall>j<inputs (frds s ! p).
                    get3 (fresp (frds s' ! r)) i j k = bget Rk i j) \<and>
                 (solve_inverts E \<longrightarrow>
                    slice3 (fresp (frds s' ! r)) k = Inr Rk \<and>
                    matmul A X = Inr (eye (inputs (frds s ! p))) \<and>
                    matmul A Rk = Inr Pk)))"
proof (intro conjI allI impI)
  fix sg'
  show "feedback E p (FRDRef c) sg' s = feedback E p (FRDRef c) sg s"
    by (simp add: feedback_def)
next
  assume "\<not> (outputs (frds s ! p) = inputs (frds s ! c) \<and>
              inputs (frds s ! p) = outputs (frds s ! c))"
  then show "feedback E p (FRDRef c) sg s = (Inl (ValueError msg_feedback), s)"
    unfolding feedback_same_axis_eq[OF assms] by (rule if_not_P)
next
  fix r s'
  assume res: "feedback E p (FRDRef c) sg s = (Inr r, s')"
  let ?P = "frds s ! p" and ?C = "frds s ! c"
  let ?n = "length (arrays s ! omega ?P)"
  from res have dims: "outputs ?P = inputs ?C \<and> inputs ?P = outputs ?C"
    by (auto simp: feedback_same_axis_eq[OF assms] split: if_splits)
  with res obtain F where
    fill: "fill_slices (outputs ?P) (inputs ?P) ?n (\<lambda>k. feedback_sample E ?P ?C k) = Inr F"
    and ctor: "FRD_data E F (array1 (arrays s ! omega ?P)) s = (Inr r, s')"
    by (auto simp: feedback_same_axis_eq[OF assms] split: sum.splits)
  note F = fill_slices_Inr[OF fill]
  note new = FRD_data_new[OF ctor]
  from p have shP: "shape (fresp ?P) = [outputs ?P, inputs ?P, ?n]"
    by (simp add: is_frd_def wf_frd_def)
  from F have wfF: "wf_array F"
    by simp
  show "is_frd s' r"
    using ctor wfF by (rule FRD_data_wf) (simp add: wf_array_def array1_def)
  show "outputs ?P = inputs ?C" "inputs ?P = outputs ?C"
    using dims by simp_all
  show "arrays s' ! omega (frds s' ! r) = arrays s ! omega ?P"
    by (simp add: new)
  show "outputs (frds s' ! r) = outputs ?P" "inputs (frds s' ! r) = inputs ?P"
    by (simp_all add: new F)
  fix k
  assume k: "k < ?n"
  with F obtain M where M: "feedback_sample E ?P ?C k = Inr M"
    and get: "\<forall>i<outputs ?P. \<forall>j<inputs ?P. get3 F i j k = bget M i j"
    by blast
  from feedback_sample_Inr[OF M] obtain Pk Ck PC A X where
    Pk: "slice3 (fresp ?P) k = Inr Pk" and Ck: "slice3 (fresp ?C) k = Inr Ck" and
    PC: "matmul Pk Ck = Inr PC" and A: "mat_add (eye (inputs ?P)) PC = Inr A" and
    X: "solve E A (eye (inputs ?P)) = Inr X" and XP: "matmul X Pk = Inr M"
    by blast
  have inv: "slice3 (fresp (frds s' ! r)) k = Inr M \<and>
             matmul A X = Inr (eye (inputs ?P)) \<and> matmul A M = Inr Pk"
    if "solve_inverts E"
  proof -
    from that X have rX: "nrows X = inputs ?P" and cX: "ncols X = inputs ?P"
      and AX: "matmul A X = Inr (eye (inputs ?P))"
      by (auto simp: solve_inverts_def)
    from Pk k shP have Pk': "Pk = mtab (outputs ?P) (inputs ?P) (\<lambda>i j. get3 (fresp ?P) i j k)"
      by (simp add: slice3_wf)
    from XP cX Pk' have sq: "outputs ?P = inputs ?P"
      by (auto simp: matmul_def split: if_splits)
    from XP Pk' sq have XP': "matmul X (mtab (inputs ?P) (inputs ?P) (\<lambda>i j. get3 (fresp ?P) i j k)) = Inr M"
      by simp
    have AM: "matmul A M = Inr Pk"
      using matmul_cancel[OF AX XP'] Pk' sq by simp
    from XP Pk' rX sq obtain h where Mh: "M = mtab (outputs ?P) (inputs ?P) h"
      by (auto simp: matmul_def split: if_splits)
    have "mtab (outputs ?P) (inputs ?P) (\<lambda>i j. get3 F i j k)
        = mtab (outputs ?P) (inputs ?P) (\<lambda>i j. mget M i j)"
      using get by (intro mtab_cong) (simp add: Mh bget_mget)
    also have "\<dots> = M"
      using Mh by (rule mtab_mget)
    finally have "slice3 F k = Inr M"
      using k F by (simp add: slice3_wf)
    with AX AM show ?thesis
      by (simp add: new)
  qed
  show "\<exists>Pk Ck PC A X Rk.
                 slice3 (fresp ?P) k = Inr Pk \<and>
                 slice3 (fresp ?C) k = Inr Ck \<and>
                 matmul Pk Ck = Inr PC \<and>
                 mat_add (eye (inputs ?P)) PC = Inr A \<and>
                 solve E A (eye (inputs ?P)) = Inr X \<and>
                 matmul X Pk = Inr Rk \<and>
                 (\<forall>i<outputs ?P. \<forall>j<inputs ?P.
                    get3 (fresp (frds s' ! r)) i j k = bget Rk i j) \<and>
                 (solve_inverts E \<longrightarrow>
                    slice3 (fresp (frds s' ! r)) k = Inr Rk \<and>
                    matmul A X = Inr (eye (inputs ?P)) \<and>
                    matmul A Rk = Inr Pk)"
    using Pk Ck PC A X XP get inv
    by (intro exI[of _ Pk] exI[of _ Ck] exI[of _ PC] exI[of _ A] exI[of _ X] exI[of _ M])
       (simp add: new)
qed

theorem feedback_same_axis_witness:
  "fst (feedback table_ext 0 (FRDRef 1) (PyInt (- 1)) heap_ab) = Inr 2 \<and>
   fresp (frds (snd (feedback table_ext 0 (FRDRef 1) (PyInt (- 1)) heap_ab)) ! 2) = const3 (2 / 9) \<and>
   is_frd (snd (feedback table_ext 0 (FRDRef 1) (PyInt (- 1)) heap_ab)) 2 \<and>
   feedback table_ext 0 (FRDRef 1) (PyInt 1) heap_ab
     = feedback table_ext 0 (FRDRef 1) (PyInt (- 1)) heap_ab \<and>
   solve_inverts table_ext"
proof -
  let ?s' = "snd (feedback table_ext 0 (FRDRef 1) (PyInt (- 1)) heap_ab)"
  have res: "feedback table_ext 0 (FRDRef 1) (PyInt (- 1)) heap_ab = (Inr 2, ?s')"
    using feedback_ab[of "PyInt (- 1)"] by simp
  have hyp: "arrays heap_ab ! omega (frds heap_ab ! 1) = arrays heap_ab ! omega (frds heap_ab ! 0)"
    "sorted (arrays heap_ab ! omega (frds heap_ab ! 0))"
    by (simp_all add: heap_ab_eq)
  note fb = feedback_same_axis[OF is_frd_heap_ab hyp, of table_ext "PyInt (- 1)"]
  from fb res have "is_frd ?s' 2"
    by blast
  moreover from fb have "feedback table_ext 0 (FRDRef 1) (PyInt 1) heap_ab
     = feedback table_ext 0 (FRDRef 1) (PyInt (- 1)) heap_ab"
    by blast
  moreover have "fst (feedback table_ext 0 (FRDRef 1) (PyInt (- 1)) heap_ab) = Inr 2"
    "fresp (frds ?s' ! 2) = const3 (2 / 9)"
    using feedback_ab[of "PyInt (- 1)"] by (simp_all add: heap_ab_eq)
  ultimately show ?thesis
    using solve_inverts_table_ext by simp
qed

subsection \<open>Interpolation at the sampled frequencies\<close>





end
